theory Spec2Isabelle
  imports Main "HOL-Library.Sublist" "HOL-Library.AList"
begin

section \<open>The file-upload service: main.py and main_comentado.py\<close>

text \<open>
  The repository holds two FastAPI modules, \<^verbatim>\<open>main.py\<close> and \<^verbatim>\<open>main_comentado.py\<close>.
  Both define a \<^verbatim>\<open>ConnectionManager\<close>, a websocket endpoint, an upload endpoint, two
  listing endpoints and a download endpoint. The class \<^verbatim>\<open>ConnectionManager\<close>, the function
  \<^verbatim>\<open>websocket_endpoint\<close> and the two listing functions are the same statements in both
  files (the second file only adds comments), so one definition embeds each of them.
  \<^verbatim>\<open>upload_file\<close> and \<^verbatim>\<open>get_file\<close> differ between the files and are embedded twice, with
  the suffixes \<open>_main\<close> and \<open>_comentado\<close>.

  Python strings are \<open>string\<close> (a list of 8-bit characters), bytes are \<open>char list\<close> too.
  Exceptions are values: every function that can raise returns \<open>exc + 'a\<close>, with \<open>Inl\<close>
  the exception. Functions that mutate the process state take it and return it.
\<close>

subsection \<open>Exceptions\<close>

text \<open>
  The \<^verbatim>\<open>detail\<close> texts of the HTTP errors are constant messages (one of them lists the
  allow-list in the iteration order of a Python set, which is not fixed); they are
  modelled by one constructor per message:
  \<^item> \<open>UserIdRequired\<close>: "user_id is required",
  \<^item> \<open>TypeNotAllowed\<close>: "Tipo de archivo no permitido. Extensiones validas: ...",
  \<^item> \<open>FileTooLarge\<close>: "Archivo muy grande. Tamano maximo: 10MB",
  \<^item> \<open>AccessDenied\<close>: "Acceso denegado",
  \<^item> \<open>FileNotFound\<close>: "File not found".
\<close>

datatype detail = UserIdRequired | TypeNotAllowed | FileTooLarge | AccessDenied | FileNotFound

text \<open>
  \<open>HTTPException status detail\<close> is what the endpoints raise themselves. \<open>ValueError\<close> is
  raised by \<^verbatim>\<open>list.remove\<close>, \<open>OSError\<close> stands for the errors of the file system calls
  (FileNotFoundError, FileExistsError, NotADirectoryError, IsADirectoryError), and
  \<open>RuntimeError\<close> for the errors of the web framework (sending on a closed websocket,
  a file response for something that is not a regular file). All of them are
  subclasses of \<^verbatim>\<open>Exception\<close>, so a handler \<^verbatim>\<open>except Exception\<close> catches each of them.
  An exception other than \<open>HTTPException\<close> that leaves an endpoint is answered by the
  framework with status 500.
\<close>

datatype exc = HTTPException nat detail | ValueError | OSError | RuntimeError

subsection \<open>Strings\<close>

text \<open>\<^verbatim>\<open>str.lower\<close> on the ASCII letters; every other character is left as it is.\<close>

definition lower_char :: "char \<Rightarrow> char" where
  "lower_char c =
     (let n = (of_char c :: nat) in if 65 \<le> n \<and> n \<le> 90 then char_of (n + 32) else c)"

definition lower :: "string \<Rightarrow> string" where
  "lower s = map lower_char s"

text \<open>\<^verbatim>\<open>s.split(d)\<close>: the fields between the separators, at least one field.\<close>

fun split_sep :: "char \<Rightarrow> string \<Rightarrow> string list" where
  "split_sep d [] = [[]]"
| "split_sep d (c # cs) =
     (if c = d then [] # split_sep d cs
      else (case split_sep d cs of
              [] \<Rightarrow> [[c]]
            | w # ws \<Rightarrow> (c # w) # ws))"

text \<open>\<^verbatim>\<open>s.split(d, 1)\<close>: split at the first separator only.\<close>

definition split1 :: "char \<Rightarrow> string \<Rightarrow> string list" where
  "split1 d s =
     (if d \<in> set s
      then [takeWhile (\<lambda>c. c \<noteq> d) s, tl (dropWhile (\<lambda>c. c \<noteq> d) s)]
      else [s])"

text \<open>\<^verbatim>\<open>"/".join(xs)\<close>.\<close>

fun join_slash :: "string list \<Rightarrow> string" where
  "join_slash [] = []"
| "join_slash [x] = x"
| "join_slash (x # y # ys) = x @ ''/'' @ join_slash (y # ys)"

text \<open>How an f-string prints a value that is a string or \<^verbatim>\<open>None\<close>.\<close>

fun fmt :: "string option \<Rightarrow> string" where
  "fmt None = ''None''"
| "fmt (Some s) = s"

subsection \<open>pathlib paths\<close>

text \<open>
  A \<^verbatim>\<open>PurePosixPath\<close> is a root (present or not) and a list of components. Parsing a
  string splits it at the slashes and drops the empty components and the components
  \<^verbatim>\<open>.\<close>; the components \<^verbatim>\<open>..\<close> are kept. (A path that starts with exactly two slashes
  keeps them in pathlib; the kernel and \<^verbatim>\<open>resolve()\<close> read it as one, and so does this
  model.)
\<close>

record ppath =
  absolute :: bool
  parts :: "string list"

definition Path :: "string \<Rightarrow> ppath" where
  "Path s = \<lparr> absolute = (s \<noteq> [] \<and> hd s = CHR ''/''),
              parts = filter (\<lambda>c. c \<noteq> [] \<and> c \<noteq> ''.'') (split_sep (CHR ''/'') s) \<rparr>"

text \<open>The operator \<^verbatim>\<open>p / s\<close>: an absolute right operand replaces the left one.\<close>

definition joinpath :: "ppath \<Rightarrow> string \<Rightarrow> ppath" where
  "joinpath p s =
     (if absolute (Path s) then Path s
      else \<lparr> absolute = absolute p, parts = parts p @ parts (Path s) \<rparr>)"

text \<open>\<^verbatim>\<open>str(p)\<close>.\<close>

definition str_path :: "ppath \<Rightarrow> string" where
  "str_path p =
     (if absolute p then ''/'' @ join_slash (parts p)
      else if parts p = [] then ''.'' else join_slash (parts p))"

text \<open>\<^verbatim>\<open>p.name\<close>: the last component, or the empty string.\<close>

definition name :: "ppath \<Rightarrow> string" where
  "name p = (if parts p = [] then [] else last (parts p))"

text \<open>
  \<^verbatim>\<open>p.suffix\<close> (Python 3.4 to 3.13): with \<^verbatim>\<open>i = name.rfind('.')\<close>, the suffix is
  \<^verbatim>\<open>name[i:]\<close> if \<^verbatim>\<open>0 < i < len(name) - 1\<close>, and the empty string otherwise.
  \<open>rfind_dot\<close> is \<^verbatim>\<open>name.rfind('.')\<close>, with \<open>None\<close> for -1.
\<close>

fun rfind_dot :: "string \<Rightarrow> nat option" where
  "rfind_dot [] = None"
| "rfind_dot (c # cs) =
     (case rfind_dot cs of
        Some i \<Rightarrow> Some (Suc i)
      | None \<Rightarrow> if c = CHR ''.'' then Some 0 else None)"

definition suffix_of_name :: "string \<Rightarrow> string" where
  "suffix_of_name n =
     (case rfind_dot n of
        None \<Rightarrow> []
      | Some i \<Rightarrow> if 0 < i \<and> i + 1 < length n then drop i n else [])"

definition suffix_path :: "ppath \<Rightarrow> string" where
  "suffix_path p = suffix_of_name (name p)"

subsection \<open>The process state: file system, working directory, websockets\<close>

text \<open>
  The file system is a table from canonical absolute paths (the list of directory names
  from the root, without \<^verbatim>\<open>.\<close> and \<^verbatim>\<open>..\<close>) to entries, in the order in which a directory
  listing shows them. The root \<open>[]\<close> is always a directory. There are no symbolic links
  and no permissions in this model.
\<close>

datatype entry = Dir | File "char list"

type_synonym fs = "(string list \<times> entry) list"

text \<open>
  A websocket object is identified by a number (Python compares the objects by identity).
  The channel of a websocket is \<open>Live inbox\<close>, with the texts the client has got so far,
  or \<open>Dead\<close>; a websocket with no channel entry is dead too. \<open>send_attempts\<close> records
  every call of \<^verbatim>\<open>send_text\<close>, delivered or not, in the order of the calls.
\<close>

type_synonym websocket = nat

datatype chan = Live "string list" | Dead

record state =
  cwd :: "string list"
  disk :: fs
  active_connections :: "websocket list"
  channels :: "(websocket \<times> chan) list"
  send_attempts :: "(websocket \<times> string) list"

definition dir_at :: "fs \<Rightarrow> string list \<Rightarrow> bool" where
  "dir_at d p = (p = [] \<or> map_of d p = Some Dir)"

text \<open>
  Path resolution as the kernel does it: \<open>walk d cur cs\<close> follows the components \<open>cs\<close>
  from the directory \<open>cur\<close>. Every component is looked up in a directory that exists
  (also \<^verbatim>\<open>..\<close>, whose parent of the root is the root); the result is the canonical path
  of the last component, which may or may not exist.
\<close>

fun walk :: "fs \<Rightarrow> string list \<Rightarrow> string list \<Rightarrow> string list option" where
  "walk d cur [] = Some cur"
| "walk d cur (c # cs) =
     (if \<not> dir_at d cur then None
      else if c = ''..'' then walk d (butlast cur) cs
      else walk d (cur @ [c]) cs)"

definition locate :: "state \<Rightarrow> ppath \<Rightarrow> string list option" where
  "locate s p = walk (disk s) (if absolute p then [] else cwd s) (parts p)"

text \<open>\<^verbatim>\<open>os.stat\<close>: the entry a path leads to, \<open>None\<close> where the call fails.\<close>

definition stat :: "state \<Rightarrow> ppath \<Rightarrow> entry option" where
  "stat s p =
     (case locate s p of
        None \<Rightarrow> None
      | Some q \<Rightarrow> if q = [] then Some Dir else map_of (disk s) q)"

definition exists :: "state \<Rightarrow> ppath \<Rightarrow> bool" where
  "exists s p = (stat s p \<noteq> None)"

definition is_dir :: "state \<Rightarrow> ppath \<Rightarrow> bool" where
  "is_dir s p = (stat s p = Some Dir)"

definition is_file :: "state \<Rightarrow> ppath \<Rightarrow> bool" where
  "is_file s p = (case stat s p of Some (File b) \<Rightarrow> True | _ \<Rightarrow> False)"

text \<open>
  \<^verbatim>\<open>p.iterdir()\<close>: one child path per entry of the directory; \<open>OSError\<close> if \<open>p\<close> is
  not a directory. pathlib appends the entry's name to the components of \<open>p\<close>.
\<close>

definition children :: "fs \<Rightarrow> string list \<Rightarrow> string list" where
  "children d q = [last k. (k, e) \<leftarrow> d, k \<noteq> [] \<and> butlast k = q]"

definition iterdir :: "state \<Rightarrow> ppath \<Rightarrow> exc + ppath list" where
  "iterdir s p =
     (case locate s p of
        None \<Rightarrow> Inl OSError
      | Some q \<Rightarrow>
          if dir_at (disk s) q
          then Inr (map (\<lambda>n. p\<lparr>parts := parts p @ [n]\<rparr>) (children (disk s) q))
          else Inl OSError)"

text \<open>
  \<^verbatim>\<open>p.mkdir(exist_ok=True)\<close>: creates the directory; an existing directory is left as it
  is; the call fails where the parent is missing or not a directory, and where the path
  exists and is not a directory.
\<close>

definition mkdir_exist_ok :: "ppath \<Rightarrow> state \<Rightarrow> (exc + unit) \<times> state" where
  "mkdir_exist_ok p s =
     (case locate s p of
        None \<Rightarrow> (Inl OSError, s)
      | Some q \<Rightarrow>
          if dir_at (disk s) q then (Inr (), s)
          else if map_of (disk s) q \<noteq> None then (Inl OSError, s)
          else (Inr (), s\<lparr>disk := AList.update q Dir (disk s)\<rparr>))"

text \<open>\<^verbatim>\<open>p.resolve()\<close> without symbolic links: the working directory is put in front of a
  relative path and each \<^verbatim>\<open>..\<close> removes the component before it, whether it exists or
  not (the root has no parent to go to).\<close>

fun normalize :: "string list \<Rightarrow> string list \<Rightarrow> string list" where
  "normalize acc [] = acc"
| "normalize acc (c # cs) =
     (if c = ''..'' then normalize (butlast acc) cs else normalize (acc @ [c]) cs)"

definition resolve :: "state \<Rightarrow> ppath \<Rightarrow> ppath" where
  "resolve s p =
     \<lparr> absolute = True,
       parts = normalize (if absolute p then [] else cwd s) (parts p) \<rparr>"

subsection \<open>Uploaded files\<close>

text \<open>
  An \<^verbatim>\<open>UploadFile\<close>: the file name the client sent (or \<^verbatim>\<open>None\<close>) and the file object
  \<^verbatim>\<open>file.file\<close>, which is its bytes and a read position.
\<close>

record upload =
  filename :: "string option"
  content :: "char list"
  pos :: nat

definition seek_end :: "upload \<Rightarrow> upload" where
  "seek_end f = f\<lparr>pos := length (content f)\<rparr>"

definition tell :: "upload \<Rightarrow> nat" where
  "tell f = pos f"

definition seek_start :: "upload \<Rightarrow> upload" where
  "seek_start f = f\<lparr>pos := 0\<rparr>"

text \<open>
  \<^verbatim>\<open>with p.open("wb") as buffer: shutil.copyfileobj(f, buffer)\<close>: the file is created or
  truncated and gets the bytes of \<open>f\<close> from its read position on. Opening fails where the
  parent directory is missing and where the path is a directory.
\<close>

definition open_wb_copyfileobj :: "ppath \<Rightarrow> upload \<Rightarrow> state \<Rightarrow> (exc + unit) \<times> state" where
  "open_wb_copyfileobj p f s =
     (case locate s p of
        None \<Rightarrow> (Inl OSError, s)
      | Some q \<Rightarrow>
          if dir_at (disk s) q then (Inl OSError, s)
          else (Inr (), s\<lparr>disk := AList.update q (File (drop (pos f) (content f))) (disk s)\<rparr>))"

text \<open>
  \<^verbatim>\<open>FileResponse(p)\<close>: the bytes of a regular file; the framework raises for a path that
  does not lead to a regular file.
\<close>

definition FileResponse :: "state \<Rightarrow> ppath \<Rightarrow> exc + char list" where
  "FileResponse s p = (case stat s p of Some (File b) \<Rightarrow> Inr b | _ \<Rightarrow> Inl RuntimeError)"

subsection \<open>Module constants\<close>

definition UPLOAD_DIR :: ppath where
  "UPLOAD_DIR = Path ''uploads''"

definition ALLOWED_EXTENSIONS :: "string set" where
  "ALLOWED_EXTENSIONS =
     {''.jpg'', ''.jpeg'', ''.png'', ''.gif'', ''.webp'', ''.pdf'', ''.doc'', ''.docx'',
      ''.xlsx'', ''.xls'', ''.txt'', ''.csv''}"

definition MAX_FILE_SIZE :: nat where
  "MAX_FILE_SIZE = 10 * 1024 * 1024"

text \<open>The text \<^verbatim>\<open>{"event": "new_file"}\<close>; the character 0x22 is the double quote.\<close>

definition NEW_FILE_EVENT :: string where
  "NEW_FILE_EVENT =
     ''{'' @ [CHR 0x22] @ ''event'' @ [CHR 0x22] @ '': '' @ [CHR 0x22] @ ''new_file''
       @ [CHR 0x22] @ ''}''"

subsection \<open>ConnectionManager (both files)\<close>

text \<open>
  \<^verbatim>\<open>websocket.accept()\<close> and \<^verbatim>\<open>websocket.send_text(message)\<close> belong to the framework:
  both raise on a dead channel; on a live one \<open>send_text\<close> hands the text to the client.
\<close>

definition accept :: "websocket \<Rightarrow> state \<Rightarrow> (exc + unit) \<times> state" where
  "accept ws s =
     (case map_of (channels s) ws of
        Some (Live inbox) \<Rightarrow> (Inr (), s)
      | _ \<Rightarrow> (Inl RuntimeError, s))"

definition send_text :: "websocket \<Rightarrow> string \<Rightarrow> state \<Rightarrow> (exc + unit) \<times> state" where
  "send_text ws message s =
     (let s' = s\<lparr>send_attempts := send_attempts s @ [(ws, message)]\<rparr>
      in case map_of (channels s') ws of
           Some (Live inbox) \<Rightarrow>
             (Inr (), s'\<lparr>channels := AList.update ws (Live (inbox @ [message])) (channels s')\<rparr>)
         | _ \<Rightarrow> (Inl RuntimeError, s'))"

definition connect :: "websocket \<Rightarrow> state \<Rightarrow> (exc + unit) \<times> state" where
  "connect ws s =
     (case accept ws s of
        (Inl e, s1) \<Rightarrow> (Inl e, s1)
      | (Inr u, s1) \<Rightarrow> (Inr (), s1\<lparr>active_connections := active_connections s1 @ [ws]\<rparr>))"

text \<open>\<^verbatim>\<open>list.remove(x)\<close> removes the first occurrence and raises ValueError if there is
  none.\<close>

definition disconnect :: "websocket \<Rightarrow> state \<Rightarrow> (exc + unit) \<times> state" where
  "disconnect ws s =
     (if ws \<in> set (active_connections s)
      then (Inr (), s\<lparr>active_connections := remove1 ws (active_connections s)\<rparr>)
      else (Inl ValueError, s))"

text \<open>
  The loop of \<^verbatim>\<open>broadcast\<close> over the connections still to visit. Whatever
  \<^verbatim>\<open>send_text\<close> raises is caught by \<^verbatim>\<open>except Exception: pass\<close> and the loop goes on.
  \<open>broadcast_loop\<close> and \<open>broadcast\<close> are the run in which no other task is scheduled
  while the broadcast is suspended in a send, so that the list is the one the loop
  started with; \<open>broadcast_among\<close> below is the run among other tasks.
\<close>

fun broadcast_loop :: "websocket list \<Rightarrow> string \<Rightarrow> state \<Rightarrow> state" where
  "broadcast_loop [] message s = s"
| "broadcast_loop (connection # rest) message s =
     (case send_text connection message s of
        (Inl e, s') \<Rightarrow> broadcast_loop rest message s'
      | (Inr u, s') \<Rightarrow> broadcast_loop rest message s')"

definition broadcast :: "string \<Rightarrow> state \<Rightarrow> (exc + unit) \<times> state" where
  "broadcast message s = (Inr (), broadcast_loop (active_connections s) message s)"

text \<open>
  The same loop among the other tasks of the event loop. \<^verbatim>\<open>self.active_connections\<close> is
  the one list object that \<^verbatim>\<open>connect\<close> and \<^verbatim>\<open>disconnect\<close> change in place, and the
  \<^verbatim>\<open>for\<close> statement does not copy it: its iterator keeps an index \<open>i\<close>, and each round
  it stops if \<open>i\<close> is not below the present length of the list, and takes the
  element at \<open>i\<close> and adds one to \<open>i\<close> otherwise. At \<^verbatim>\<open>await connection.send_text\<close>
  the broadcast is suspended and the websocket tasks run: a task that gets a
  connection calls \<^verbatim>\<open>connect\<close>, a task whose client has gone calls \<^verbatim>\<open>disconnect\<close>
  (an exception in such a task stays there). The schedule gives, for the first send,
  the second send and so on, the steps the other tasks take during that send; after
  the end of the schedule no other task runs.
\<close>

datatype task_step = Connects websocket | Disconnects websocket

fun other_task :: "task_step \<Rightarrow> state \<Rightarrow> state" where
  "other_task (Connects ws) s = snd (connect ws s)"
| "other_task (Disconnects ws) s = snd (disconnect ws s)"

fun broadcast_iter :: "nat \<Rightarrow> string \<Rightarrow> task_step list list \<Rightarrow> state \<Rightarrow> state" where
  "broadcast_iter i message [] s = broadcast_loop (drop i (active_connections s)) message s"
| "broadcast_iter i message (others # schedule) s =
     (if i < length (active_connections s)
      then (case send_text (active_connections s ! i) message s of
              (Inl e, s') \<Rightarrow> broadcast_iter (Suc i) message schedule (fold other_task others s')
            | (Inr u, s') \<Rightarrow> broadcast_iter (Suc i) message schedule (fold other_task others s'))
      else s)"

definition broadcast_among ::
  "string \<Rightarrow> task_step list list \<Rightarrow> state \<Rightarrow> (exc + unit) \<times> state" where
  "broadcast_among message schedule s = (Inr (), broadcast_iter 0 message schedule s)"

subsection \<open>websocket_endpoint (both files)\<close>

text \<open>
  What the client does after the handshake: it sends texts and may disconnect.
  \<open>receive_loop\<close> is the \<^verbatim>\<open>while True: await websocket.receive_text()\<close> loop on the
  client's events: \<open>True\<close> when \<^verbatim>\<open>WebSocketDisconnect\<close> is raised, \<open>False\<close> when the
  events are used up and the task stays suspended in \<^verbatim>\<open>receive_text\<close>.
\<close>

datatype client_event = Text string | Disconnect

datatype ws_result = Returned | Suspended

fun receive_loop :: "client_event list \<Rightarrow> bool" where
  "receive_loop [] = False"
| "receive_loop (Text t # es) = receive_loop es"
| "receive_loop (Disconnect # es) = True"

definition websocket_endpoint ::
  "websocket \<Rightarrow> client_event list \<Rightarrow> state \<Rightarrow> (exc + ws_result) \<times> state" where
  "websocket_endpoint ws events s =
     (case connect ws s of
        (Inl e, s1) \<Rightarrow> (Inl e, s1)
      | (Inr u, s1) \<Rightarrow>
          if receive_loop events
          then (case disconnect ws s1 of
                  (Inl e, s2) \<Rightarrow> (Inl e, s2)
                | (Inr u, s2) \<Rightarrow> (Inr Returned, s2))
          else (Inr Suspended, s1))"

subsection \<open>upload_file\<close>

text \<open>
  The dictionary an upload returns. \<^verbatim>\<open>uuid.uuid4()\<close> is not a function of the state:
  the identifier it returns is the parameter \<open>file_id\<close> of the model, already as the
  string \<^verbatim>\<open>str(uuid.uuid4())\<close>.
\<close>

record upload_response =
  r_file_id :: string
  r_filename :: "string option"
  r_user_id :: string
  r_url :: string

text \<open>\<^verbatim>\<open>f"{file_id}_{file.filename}"\<close>.\<close>

definition safe_filename :: "string \<Rightarrow> string option \<Rightarrow> string" where
  "safe_filename file_id fname = file_id @ ''_'' @ fmt fname"

definition file_url :: "string \<Rightarrow> string \<Rightarrow> string" where
  "file_url user_id stored = ''http://127.0.0.1:8000/files/'' @ user_id @ ''/'' @ stored"

text \<open>\<^verbatim>\<open>main.py\<close>, lines 57 to 81.\<close>

definition upload_file_main ::
  "upload \<Rightarrow> string \<Rightarrow> string \<Rightarrow> state \<Rightarrow> (exc + upload_response) \<times> state" where
  "upload_file_main file user_id file_id s =
     (if user_id = [] then (Inl (HTTPException 400 UserIdRequired), s)
      else
        let user_dir = joinpath UPLOAD_DIR user_id in
        case mkdir_exist_ok user_dir s of
          (Inl e, s1) \<Rightarrow> (Inl e, s1)
        | (Inr u, s1) \<Rightarrow>
            let file_path = joinpath user_dir (safe_filename file_id (filename file)) in
            case open_wb_copyfileobj file_path file s1 of
              (Inl e, s2) \<Rightarrow> (Inl e, s2)
            | (Inr u, s2) \<Rightarrow>
                (case broadcast NEW_FILE_EVENT s2 of
                   (Inl e, s3) \<Rightarrow> (Inl e, s3)
                 | (Inr u, s3) \<Rightarrow>
                     (Inr \<lparr> r_file_id = file_id, r_filename = filename file,
                            r_user_id = user_id,
                            r_url = file_url user_id (safe_filename file_id (filename file)) \<rparr>,
                      s3)))"

text \<open>
  \<^verbatim>\<open>main_comentado.py\<close>, lines 138 to 208: the extension check and the size check come
  between the check of \<open>user_id\<close> and the creation of the directory.
  \<^verbatim>\<open>Path(file.filename).suffix.lower() if file.filename else ''\<close> is \<open>file_ext\<close>.
\<close>

definition file_ext :: "string option \<Rightarrow> string" where
  "file_ext fname =
     (case fname of
        None \<Rightarrow> []
      | Some n \<Rightarrow> if n = [] then [] else lower (suffix_path (Path n)))"

definition upload_file_comentado ::
  "upload \<Rightarrow> string \<Rightarrow> string \<Rightarrow> state \<Rightarrow> (exc + upload_response) \<times> state" where
  "upload_file_comentado file user_id file_id s =
     (if user_id = [] then (Inl (HTTPException 400 UserIdRequired), s)
      else if file_ext (filename file) \<notin> ALLOWED_EXTENSIONS
      then (Inl (HTTPException 400 TypeNotAllowed), s)
      else
        let file1 = seek_end file;
            file_size = tell file1;
            file2 = seek_start file1
        in
        if file_size > MAX_FILE_SIZE then (Inl (HTTPException 413 FileTooLarge), s)
        else
          let user_dir = joinpath UPLOAD_DIR user_id in
          case mkdir_exist_ok user_dir s of
            (Inl e, s1) \<Rightarrow> (Inl e, s1)
          | (Inr u, s1) \<Rightarrow>
              let file_path = joinpath user_dir (safe_filename file_id (filename file)) in
              case open_wb_copyfileobj file_path file2 s1 of
                (Inl e, s2) \<Rightarrow> (Inl e, s2)
              | (Inr u, s2) \<Rightarrow>
                  (case broadcast NEW_FILE_EVENT s2 of
                     (Inl e, s3) \<Rightarrow> (Inl e, s3)
                   | (Inr u, s3) \<Rightarrow>
                       (Inr \<lparr> r_file_id = file_id, r_filename = filename file,
                              r_user_id = user_id,
                              r_url = file_url user_id (safe_filename file_id (filename file)) \<rparr>,
                        s3)))"

subsection \<open>list_all_files and list_user_files (both files)\<close>

record file_info =
  i_user_id :: string
  i_filename :: string
  i_stored_filename :: string
  i_url :: string

text \<open>\<^verbatim>\<open>n.split('_', 1)[1] if '_' in n else n\<close>.\<close>

definition original_name :: "string \<Rightarrow> string" where
  "original_name n = (if CHR ''_'' \<in> set n then split1 (CHR ''_'') n ! 1 else n)"

text \<open>The dictionary both listings append for a file path of the owner \<open>user_id\<close>.\<close>

definition file_entry :: "string \<Rightarrow> ppath \<Rightarrow> file_info" where
  "file_entry user_id file_path =
     \<lparr> i_user_id = user_id,
       i_filename = original_name (name file_path),
       i_stored_filename = name file_path,
       i_url = file_url user_id (name file_path) \<rparr>"

definition list_user_files :: "string \<Rightarrow> state \<Rightarrow> exc + file_info list" where
  "list_user_files user_id s =
     (let user_dir = joinpath UPLOAD_DIR user_id in
      if exists s user_dir \<and> is_dir s user_dir
      then (case iterdir s user_dir of
              Inl e \<Rightarrow> Inl e
            | Inr file_paths \<Rightarrow>
                Inr [file_entry user_id file_path. file_path \<leftarrow> file_paths,
                     is_file s file_path])
      else Inr [])"

text \<open>The inner loop of \<^verbatim>\<open>list_all_files\<close> over the directories found in the root;
  an \<^verbatim>\<open>iterdir\<close> that raises ends the request.\<close>

fun list_dirs :: "state \<Rightarrow> ppath list \<Rightarrow> exc + file_info list" where
  "list_dirs s [] = Inr []"
| "list_dirs s (user_dir # rest) =
     (if is_dir s user_dir
      then (case iterdir s user_dir of
              Inl e \<Rightarrow> Inl e
            | Inr file_paths \<Rightarrow>
                (case list_dirs s rest of
                   Inl e \<Rightarrow> Inl e
                 | Inr others \<Rightarrow>
                     Inr ([file_entry (name user_dir) file_path. file_path \<leftarrow> file_paths,
                           is_file s file_path] @ others)))
      else list_dirs s rest)"

definition list_all_files :: "state \<Rightarrow> exc + file_info list" where
  "list_all_files s =
     (if exists s UPLOAD_DIR
      then (case iterdir s UPLOAD_DIR of
              Inl e \<Rightarrow> Inl e
            | Inr user_dirs \<Rightarrow> list_dirs s user_dirs)
      else Inr [])"

subsection \<open>get_file\<close>

text \<open>\<^verbatim>\<open>main.py\<close>, lines 118 to 122: no containment check.\<close>

definition get_file_main :: "string \<Rightarrow> string \<Rightarrow> state \<Rightarrow> exc + char list" where
  "get_file_main user_id fname s =
     (let file_path = joinpath (joinpath UPLOAD_DIR user_id) fname in
      if \<not> exists s file_path then Inl (HTTPException 404 FileNotFound)
      else FileResponse s file_path)"

text \<open>
  \<^verbatim>\<open>main_comentado.py\<close>, lines 273 to 291: the containment check is
  \<^verbatim>\<open>str(file_path).startswith(str(UPLOAD_DIR.resolve()))\<close>, a prefix test on the two
  strings.
\<close>

definition get_file_comentado :: "string \<Rightarrow> string \<Rightarrow> state \<Rightarrow> exc + char list" where
  "get_file_comentado user_id fname s =
     (let file_path = resolve s (joinpath (joinpath UPLOAD_DIR user_id) fname) in
      if \<not> prefix (str_path (resolve s UPLOAD_DIR)) (str_path file_path)
      then Inl (HTTPException 403 AccessDenied)
      else if \<not> exists s file_path then Inl (HTTPException 404 FileNotFound)
      else FileResponse s file_path)"

text \<open>
  The canonical path of a download lies inside the storage root when the components
  of the canonical root are the first components of the canonical path.
\<close>

definition inside_root :: "string \<Rightarrow> string \<Rightarrow> state \<Rightarrow> bool" where
  "inside_root user_id fname s =
     prefix (parts (resolve s UPLOAD_DIR))
            (parts (resolve s (joinpath (joinpath UPLOAD_DIR user_id) fname)))"

subsection \<open>Identifiers, plain names and an example state\<close>

text \<open>
  \<^verbatim>\<open>str(uuid.uuid4())\<close> is 32 lower-case hexadecimal digits in five groups of 8, 4, 4, 4
  and 12, separated by hyphens.
\<close>

definition hexdigit :: "char \<Rightarrow> bool" where
  "hexdigit c = (c \<in> set ''0123456789abcdef'')"

definition is_uuid_str :: "string \<Rightarrow> bool" where
  "is_uuid_str u =
     (case split_sep (CHR ''-'') u of
        [a, b, c, d, e] \<Rightarrow>
          map length [a, b, c, d, e] = [8, 4, 4, 4, 12] \<and> list_all hexdigit (a @ b @ c @ d @ e)
      | _ \<Rightarrow> False)"

text \<open>A relative name none of whose components is \<^verbatim>\<open>..\<close>.\<close>

definition plain :: "string \<Rightarrow> bool" where
  "plain x = (\<not> absolute (Path x) \<and> ''..'' \<notin> set (parts (Path x)))"

text \<open>
  An example state: the service runs in \<^verbatim>\<open>/srv\<close>, next to the storage root
  \<^verbatim>\<open>/srv/uploads\<close> lie the files \<^verbatim>\<open>/srv/uploads_old\<close> and \<^verbatim>\<open>/srv/main.py\<close>;
  the owner \<^verbatim>\<open>carol\<close> has a partition that holds a directory and no file;
  three websockets are registered, the second of them dead.
\<close>

definition demo :: state where
  "demo = \<lparr> cwd = [''srv''],
            disk = [([''srv''], Dir), ([''srv'', ''uploads''], Dir),
                    ([''srv'', ''uploads_old''], File ''secret''),
                    ([''srv'', ''main.py''], File ''code''),
                    ([''srv'', ''uploads'', ''carol''], Dir),
                    ([''srv'', ''uploads'', ''carol'', ''tmp''], Dir)],
            active_connections = [1, 2, 3],
            channels = [(1, Live []), (2, Dead), (3, Live [''x''])],
            send_attempts = [] \<rparr>"

text \<open>The example state with all three websockets alive.\<close>

definition demo_live :: state where
  "demo_live = demo\<lparr> channels := [(1, Live []), (2, Live []), (3, Live [])] \<rparr>"

definition demo_id :: string where
  "demo_id = ''0f8fad5b-d9cb-469f-a165-70867728950e''"

definition small_upload :: "string \<Rightarrow> upload" where
  "small_upload n = \<lparr> filename = Some n, content = ''MZ'', pos = 0 \<rparr>"


text \<open>
  The example state after \<^verbatim>\<open>Report.PDF\<close> has been uploaded for \<^verbatim>\<open>alice\<close>: the
  partition and the file exist, and the broadcast has been sent to the three
  websockets.
\<close>

definition demo_after :: state where
  "demo_after =
     demo\<lparr> disk := disk demo @
               [([''srv'', ''uploads'', ''alice''], Dir),
                ([''srv'', ''uploads'', ''alice'',
                  ''0f8fad5b-d9cb-469f-a165-70867728950e_Report.PDF''], File ''MZ'')],
           channels := [(1, Live [NEW_FILE_EVENT]), (2, Dead), (3, Live [''x'', NEW_FILE_EVENT])],
           send_attempts := [(1, NEW_FILE_EVENT), (2, NEW_FILE_EVENT), (3, NEW_FILE_EVENT)] \<rparr>"

section \<open>The connection registry\<close>

subsection \<open>What one send and the whole loop change\<close>

lemma send_text_active [simp]:
  "active_connections (snd (send_text c m s)) = active_connections s"
  by (simp add: send_text_def Let_def split: option.split chan.split)

lemma send_text_attempts [simp]:
  "send_attempts (snd (send_text c m s)) = send_attempts s @ [(c, m)]"
  by (simp add: send_text_def Let_def split: option.split chan.split)

lemma send_text_disk [simp]:
  "disk (snd (send_text c m s)) = disk s" "cwd (snd (send_text c m s)) = cwd s"
  by (simp_all add: send_text_def Let_def split: option.split chan.split)

lemma send_text_channels:
  "map_of (channels (snd (send_text c m s))) w =
     (case map_of (channels s) w of
        Some (Live inbox) \<Rightarrow> Some (Live (if w = c then inbox @ [m] else inbox))
      | other \<Rightarrow> other)"
  by (simp add: send_text_def Let_def update_conv' split: option.split chan.split)

lemma broadcast_loop_step:
  "broadcast_loop (c # cs) m s = broadcast_loop cs m (snd (send_text c m s))"
  by (cases "send_text c m s") (simp split: sum.split)

lemma broadcast_loop_active:
  "active_connections (broadcast_loop cs m s) = active_connections s"
  by (induction cs arbitrary: s) (simp_all add: broadcast_loop_step del: broadcast_loop.simps(2))

lemma broadcast_loop_disk:
  "disk (broadcast_loop cs m s) = disk s \<and> cwd (broadcast_loop cs m s) = cwd s"
  by (induction cs arbitrary: s) (simp_all add: broadcast_loop_step del: broadcast_loop.simps(2))

lemma broadcast_loop_attempts:
  "send_attempts (broadcast_loop cs m s) = send_attempts s @ map (\<lambda>c. (c, m)) cs"
  by (induction cs arbitrary: s) (simp_all add: broadcast_loop_step del: broadcast_loop.simps(2))

lemma broadcast_loop_channels:
  "map_of (channels (broadcast_loop cs m s)) w =
     (case map_of (channels s) w of
        Some (Live inbox) \<Rightarrow> Some (Live (inbox @ replicate (count_list cs w) m))
      | other \<Rightarrow> other)"
proof (induction cs arbitrary: s)
  case Nil
  show ?case by (simp split: option.split chan.split)
next
  case (Cons c cs)
  show ?case
    by (simp add: broadcast_loop_step Cons.IH send_text_channels replicate_app_Cons_same
        del: broadcast_loop.simps(2) split: option.split chan.split)
qed

text \<open>
  The run without other tasks. For every state and every message, \<open>broadcast\<close> returns
  normally, the calls of \<^verbatim>\<open>send_text\<close> it makes are exactly one per registered
  connection, in the order of the registration list, whether the earlier sends failed
  or not, and every live channel has received the message once for each time its
  websocket is registered.
\<close>

lemma broadcast_undisturbed_each_once:
  "fst (broadcast m s) = Inr ()
   \<and> send_attempts (snd (broadcast m s))
       = send_attempts s @ map (\<lambda>c. (c, m)) (active_connections s)
   \<and> (\<forall>w. map_of (channels (snd (broadcast m s))) w =
         (case map_of (channels s) w of
            Some (Live inbox) \<Rightarrow>
              Some (Live (inbox @ replicate (count_list (active_connections s) w) m))
          | other \<Rightarrow> other))"
  by (simp add: broadcast_def broadcast_loop_attempts broadcast_loop_channels)

lemma broadcast_undisturbed_example:
  "fst (broadcast ''hello'' demo) = Inr ()
   \<and> send_attempts (snd (broadcast ''hello'' demo)) = [(1, ''hello''), (2, ''hello''), (3, ''hello'')]
   \<and> map_of (channels (snd (broadcast ''hello'' demo))) 2 = Some Dead
   \<and> map_of (channels (snd (broadcast ''hello'' demo))) 3 = Some (Live [''x'', ''hello''])"
  using broadcast_undisturbed_each_once [of "''hello''" demo]
  by (simp add: demo_def)

text \<open>
  A schedule in which the other tasks take no step gives that run, whatever its
  length.
\<close>

lemma broadcast_iter_idle:
  "\<forall>others \<in> set schedule. others = [] \<Longrightarrow>
     broadcast_iter i m schedule s = broadcast_loop (drop i (active_connections s)) m s"
proof (induction schedule arbitrary: i s)
  case Nil
  show ?case by simp
next
  case (Cons others schedule)
  then have o: "others = []" and r: "\<forall>x \<in> set schedule. x = []" by auto
  show ?case
  proof (cases "i < length (active_connections s)")
    case True
    then have d: "drop i (active_connections s)
                    = active_connections s ! i # drop (Suc i) (active_connections s)"
      by (simp add: Cons_nth_drop_Suc)
    obtain r1 s1 where st: "send_text (active_connections s ! i) m s = (r1, s1)"
      by (cases "send_text (active_connections s ! i) m s")
    then have a: "active_connections s1 = active_connections s"
      using send_text_active [of "active_connections s ! i" m s] by simp
    show ?thesis
      using True o st a Cons.IH [OF r, of "Suc i" s1]
      by (simp add: d split: sum.split)
  next
    case False
    then show ?thesis by simp
  qed
qed

lemma broadcast_among_idle:
  "\<forall>others \<in> set schedule. others = [] \<Longrightarrow> broadcast_among m schedule s = broadcast m s"
  by (simp add: broadcast_among_def broadcast_def broadcast_iter_idle)

text \<open>
  Claim C2, evaluated on the run among other tasks. The websockets 1, 2 and 3 are
  registered and alive. While the broadcast is suspended in its first send, to
  websocket 1, the task of websocket 1 sees its client go and calls \<open>disconnect\<close>: the
  list becomes 2, 3 and the iterator, at index 1, goes on with websocket 3. The
  broadcast returns normally; \<^verbatim>\<open>send_text\<close> has been called for 1 and for 3 and never
  for 2, which was registered when the broadcast began, is registered when it ends and
  has received nothing.
\<close>

theorem broadcast_skips_connection_after_disconnect:
  "active_connections demo_live = [1, 2, 3]
   \<and> fst (broadcast_among ''hello'' [[Disconnects 1]] demo_live) = Inr ()
   \<and> send_attempts (snd (broadcast_among ''hello'' [[Disconnects 1]] demo_live))
       = [(1, ''hello''), (3, ''hello'')]
   \<and> active_connections (snd (broadcast_among ''hello'' [[Disconnects 1]] demo_live)) = [2, 3]
   \<and> map_of (channels (snd (broadcast_among ''hello'' [[Disconnects 1]] demo_live))) 2
       = Some (Live [])"
  by code_simp

subsection \<open>Removing a connection\<close>

text \<open>
  Claim C5, as stated, fails: a second \<open>disconnect\<close> of the same websocket finds it
  absent and raises \<open>ValueError\<close> to the caller.
\<close>

theorem disconnect_twice_raises:
  "7 \<notin> set (active_connections (snd (disconnect 7 (demo\<lparr>active_connections := [7]\<rparr>))))
   \<and> fst (disconnect 7 (snd (disconnect 7 (demo\<lparr>active_connections := [7]\<rparr>)))) = Inl ValueError"
  by (simp add: disconnect_def demo_def)

text \<open>
  Claim C5, amended. Removing a connection that is not registered leaves the state
  unchanged and raises \<open>ValueError\<close>; removing a registered connection removes its first
  occurrence from the list and returns normally.
\<close>

theorem disconnect_absent_raises:
  "(ws \<notin> set (active_connections s) \<longrightarrow> disconnect ws s = (Inl ValueError, s))
   \<and> (ws \<in> set (active_connections s) \<longrightarrow>
        disconnect ws s = (Inr (), s\<lparr>active_connections := remove1 ws (active_connections s)\<rparr>))"
  by (simp add: disconnect_def)

theorem disconnect_absent_raises_witness:
  "4 \<notin> set (active_connections demo) \<and> disconnect 4 demo = (Inl ValueError, demo)
   \<and> 2 \<in> set (active_connections demo)
   \<and> active_connections (snd (disconnect 2 demo)) = [1, 3] \<and> fst (disconnect 2 demo) = Inr ()"
  using disconnect_absent_raises [of 4 demo] disconnect_absent_raises [of 2 demo]
  by (simp add: demo_def)

subsection \<open>The upload pipelines and the registry\<close>

lemma mkdir_result:
  "mkdir_exist_ok p s = (r, s1) \<Longrightarrow>
     active_connections s1 = active_connections s \<and> channels s1 = channels s
     \<and> send_attempts s1 = send_attempts s \<and> cwd s1 = cwd s \<and> (\<forall>e. r = Inl e \<longrightarrow> s1 = s)"
  by (auto simp: mkdir_exist_ok_def split: option.splits if_splits)

lemma open_wb_result:
  "open_wb_copyfileobj p f s = (r, s1) \<Longrightarrow>
     active_connections s1 = active_connections s \<and> channels s1 = channels s
     \<and> send_attempts s1 = send_attempts s \<and> cwd s1 = cwd s \<and> (\<forall>e. r = Inl e \<longrightarrow> s1 = s)"
  by (auto simp: open_wb_copyfileobj_def split: option.splits if_splits)

lemma upload_file_main_active:
  "active_connections (snd (upload_file_main f u i s)) = active_connections s"
proof (cases "u = []")
  case True
  then show ?thesis by (simp add: upload_file_main_def)
next
  case False
  obtain r1 s1 where m: "mkdir_exist_ok (joinpath UPLOAD_DIR u) s = (r1, s1)"
    by (cases "mkdir_exist_ok (joinpath UPLOAD_DIR u) s")
  obtain r2 s2 where
    w: "open_wb_copyfileobj (joinpath (joinpath UPLOAD_DIR u) (safe_filename i (filename f))) f s1
          = (r2, s2)"
    by (cases "open_wb_copyfileobj (joinpath (joinpath UPLOAD_DIR u) (safe_filename i (filename f))) f s1")
  from mkdir_result [OF m] open_wb_result [OF w] False m w show ?thesis
    by (simp add: upload_file_main_def Let_def broadcast_def broadcast_loop_active
        split: sum.split)
qed

lemma upload_file_comentado_cases:
  "upload_file_comentado f u i s =
     (if u = [] then (Inl (HTTPException 400 UserIdRequired), s)
      else if file_ext (filename f) \<notin> ALLOWED_EXTENSIONS
      then (Inl (HTTPException 400 TypeNotAllowed), s)
      else if length (content f) > MAX_FILE_SIZE then (Inl (HTTPException 413 FileTooLarge), s)
      else upload_file_main (seek_start (seek_end f)) u i s)"
  by (simp add: upload_file_comentado_def upload_file_main_def Let_def seek_end_def
      seek_start_def tell_def split: prod.split sum.split)

lemma upload_file_comentado_active:
  "active_connections (snd (upload_file_comentado f u i s)) = active_connections s"
  by (simp add: upload_file_comentado_cases upload_file_main_active)

text \<open>
  Claim C6. \<open>broadcast\<close> leaves the list of registered connections as it was, for every
  state and every message, also where sends fail; so do the two upload pipelines, the
  only callers of \<open>broadcast\<close>, and \<open>connect\<close> keeps every registered connection. The
  listings and the downloads only read the state, so \<open>disconnect\<close> is the one operation
  that removes a connection.
\<close>

theorem broadcast_keeps_registry:
  "active_connections (snd (broadcast m s)) = active_connections s
   \<and> active_connections (snd (upload_file_main f u i s)) = active_connections s
   \<and> active_connections (snd (upload_file_comentado f u i s)) = active_connections s
   \<and> prefix (active_connections s) (active_connections (snd (connect ws s)))"
  by (simp add: broadcast_def broadcast_loop_active upload_file_main_active
      upload_file_comentado_active connect_def accept_def split: option.split chan.split)

theorem broadcast_keeps_registry_witness:
  "map_of (channels demo) 2 = Some Dead
   \<and> fst (send_text 2 ''hello'' demo) = Inl RuntimeError
   \<and> active_connections (snd (broadcast ''hello'' demo)) = [1, 2, 3]"
  using broadcast_keeps_registry [of "''hello''" demo]
  by (simp add: demo_def send_text_def)

section \<open>Stored names and listings\<close>

subsection \<open>A generated identifier has no underscore\<close>

lemma split_sep_nonempty [simp]: "split_sep d s \<noteq> []"
  by (induction s) (auto split: list.split)

lemma split_sep_chars:
  "c \<in> set s \<Longrightarrow> c \<noteq> d \<Longrightarrow> \<exists>w \<in> set (split_sep d s). c \<in> set w"
proof (induction s)
  case Nil
  then show ?case by simp
next
  case (Cons a s)
  then show ?case
    by (cases "split_sep d s") (auto split: if_splits)
qed

lemma hexdigit_underscore: "\<not> hexdigit (CHR ''_'')"
  by (simp add: hexdigit_def)

lemma uuid_no_underscore:
  assumes "is_uuid_str u"
  shows "CHR ''_'' \<notin> set u"
proof
  assume "CHR ''_'' \<in> set u"
  then obtain w where w: "w \<in> set (split_sep (CHR ''-'') u)" "CHR ''_'' \<in> set w"
    using split_sep_chars [of "CHR ''_''" u "CHR ''-''"] by auto
  from assms obtain a b c d e where
    sp: "split_sep (CHR ''-'') u = [a, b, c, d, e]" and hx: "list_all hexdigit (a @ b @ c @ d @ e)"
    by (auto simp: is_uuid_str_def split: list.splits)
  from w sp have "CHR ''_'' \<in> set (a @ b @ c @ d @ e)" by auto
  with hx have "hexdigit (CHR ''_'')" by (auto simp: list_all_iff)
  then show False by (simp add: hexdigit_underscore)
qed

lemma original_name_after_prefix:
  assumes "CHR ''_'' \<notin> set a"
  shows "original_name (a @ ''_'' @ b) = b"
proof -
  have "dropWhile (\<lambda>c. c \<noteq> CHR ''_'') (a @ CHR ''_'' # b) = CHR ''_'' # b"
    using assms by (induction a) auto
  then show ?thesis by (simp add: original_name_def split1_def)
qed

text \<open>
  An upload without a file name (\<^verbatim>\<open>None\<close>) is stored under the identifier followed by
  \<^verbatim>\<open>_None\<close>, and the listings show the name \<^verbatim>\<open>None\<close> for it.
\<close>

lemma stored_name_without_filename:
  assumes "is_uuid_str file_id"
  shows "original_name (safe_filename file_id None) = ''None''"
  using original_name_after_prefix [OF uuid_no_underscore [OF assms], of "''None''"]
  by (simp add: safe_filename_def)

subsection \<open>Listing an owner without files\<close>

text \<open>
  Claim C9. If the partition directory of \<open>user_id\<close> does not exist, or none of the
  entries that \<^verbatim>\<open>iterdir\<close> finds in it is a regular file, \<open>list_user_files\<close> returns the
  empty list and raises nothing.
\<close>

theorem list_user_files_empty:
  assumes "\<not> exists s (joinpath UPLOAD_DIR user_id)
           \<or> (\<forall>file_paths. iterdir s (joinpath UPLOAD_DIR user_id) = Inr file_paths \<longrightarrow>
                  (\<forall>file_path \<in> set file_paths. \<not> is_file s file_path))"
  shows "list_user_files user_id s = Inr []"
proof (cases "exists s (joinpath UPLOAD_DIR user_id) \<and> is_dir s (joinpath UPLOAD_DIR user_id)")
  case False
  then show ?thesis by (auto simp add: list_user_files_def Let_def)
next
  case True
  then obtain q where q: "locate s (joinpath UPLOAD_DIR user_id) = Some q" "dir_at (disk s) q"
    by (auto simp: is_dir_def stat_def dir_at_def split: option.splits if_splits)
  then obtain fps where fps: "iterdir s (joinpath UPLOAD_DIR user_id) = Inr fps"
    by (simp add: iterdir_def)
  with assms True have "\<forall>fp \<in> set fps. \<not> is_file s fp" by blast
  then have "[file_entry user_id fp. fp \<leftarrow> fps, is_file s fp] = []"
    by (induction fps) auto
  with True fps show ?thesis by (simp add: list_user_files_def Let_def)
qed

theorem list_user_files_empty_witness:
  "\<not> exists demo (joinpath UPLOAD_DIR ''bob'') \<and> list_user_files ''bob'' demo = Inr []
   \<and> exists demo (joinpath UPLOAD_DIR ''carol'')
   \<and> iterdir demo (joinpath UPLOAD_DIR ''carol'')
       = Inr [\<lparr>absolute = False, parts = [''uploads'', ''carol'', ''tmp'']\<rparr>]
   \<and> \<not> is_file demo \<lparr>absolute = False, parts = [''uploads'', ''carol'', ''tmp'']\<rparr>
   \<and> list_user_files ''carol'' demo = Inr []"
proof -
  have b: "\<not> exists demo (joinpath UPLOAD_DIR ''bob'')" by code_simp
  have c: "exists demo (joinpath UPLOAD_DIR ''carol'')" by code_simp
  have i: "iterdir demo (joinpath UPLOAD_DIR ''carol'')
             = Inr [\<lparr>absolute = False, parts = [''uploads'', ''carol'', ''tmp'']\<rparr>]"
    by code_simp
  have f: "\<not> is_file demo \<lparr>absolute = False, parts = [''uploads'', ''carol'', ''tmp'']\<rparr>"
    by code_simp
  have "list_user_files ''bob'' demo = Inr []"
    using list_user_files_empty [of demo "''bob''"] b by blast
  moreover have "list_user_files ''carol'' demo = Inr []"
    using list_user_files_empty [of demo "''carol''"] i f by simp
  ultimately show ?thesis using b c i f by blast
qed


section \<open>Downloads and the storage root\<close>

text \<open>
  Claim C1, evaluated on \<^verbatim>\<open>main_comentado.py\<close>. The download of owner \<^verbatim>\<open>..\<close> and file
  \<^verbatim>\<open>uploads_old\<close> has the canonical path \<^verbatim>\<open>/srv/uploads_old\<close>, which is not inside the
  canonical root \<^verbatim>\<open>/srv/uploads\<close>; the string of the path starts with the string of
  the root, the containment check passes and the file is served.
\<close>

theorem get_file_comentado_serves_sibling_of_root:
  "\<not> inside_root ''..'' ''uploads_old'' demo
   \<and> str_path (resolve demo UPLOAD_DIR) = ''/srv/uploads''
   \<and> str_path (resolve demo (joinpath (joinpath UPLOAD_DIR ''..'') ''uploads_old''))
       = ''/srv/uploads_old''
   \<and> get_file_comentado ''..'' ''uploads_old'' demo = Inr ''secret''"
  by code_simp

text \<open>
  \<^verbatim>\<open>main.py\<close> has no containment check: it serves \<^verbatim>\<open>/srv/main.py\<close>, which
  \<^verbatim>\<open>main_comentado.py\<close> refuses.
\<close>

lemma get_file_main_serves_outside_root:
  "\<not> inside_root ''..'' ''main.py'' demo
   \<and> get_file_main ''..'' ''main.py'' demo = Inr ''code''
   \<and> get_file_comentado ''..'' ''main.py'' demo = Inl (HTTPException 403 AccessDenied)"
  by code_simp

section \<open>The upload pipelines\<close>

subsection \<open>The extension check\<close>

text \<open>
  Claim C3, evaluated on \<^verbatim>\<open>main.py\<close>. The upload of \<^verbatim>\<open>virus.exe\<close> for the owner
  \<^verbatim>\<open>alice\<close>: the extension is not in the allow-list, and the pipeline of \<^verbatim>\<open>main.py\<close>
  creates the partition directory, writes the file and returns the success response.
\<close>

theorem upload_file_main_stores_disallowed_type:
  "file_ext (filename (small_upload ''virus.exe'')) = ''.exe''
   \<and> ''.exe'' \<notin> ALLOWED_EXTENSIONS
   \<and> fst (upload_file_main (small_upload ''virus.exe'') ''alice'' demo_id demo)
       = Inr \<lparr> r_file_id = demo_id, r_filename = Some ''virus.exe'', r_user_id = ''alice'',
               r_url = ''http://127.0.0.1:8000/files/alice/0f8fad5b-d9cb-469f-a165-70867728950e_virus.exe'' \<rparr>
   \<and> disk (snd (upload_file_main (small_upload ''virus.exe'') ''alice'' demo_id demo))
       = disk demo @
         [([''srv'', ''uploads'', ''alice''], Dir),
          ([''srv'', ''uploads'', ''alice'', ''0f8fad5b-d9cb-469f-a165-70867728950e_virus.exe''],
           File ''MZ'')]"
  by code_simp

text \<open>
  The pipeline of \<^verbatim>\<open>main_comentado.py\<close> rejects every such upload with status 400 and
  leaves the state as it was; the rejection is the one of the extension check unless
  \<open>user_id\<close> is empty, which the first check rejects.
\<close>

lemma upload_file_comentado_rejects_disallowed_type:
  assumes "file_ext (filename file) \<notin> ALLOWED_EXTENSIONS"
  shows "upload_file_comentado file user_id file_id s =
           (Inl (HTTPException 400 (if user_id = [] then UserIdRequired else TypeNotAllowed)), s)"
  using assms by (simp add: upload_file_comentado_cases)

subsection \<open>Errors of the shared part of the two pipelines\<close>

lemma mkdir_error: "mkdir_exist_ok p s = (Inl e, s1) \<Longrightarrow> e = OSError"
  by (auto simp: mkdir_exist_ok_def split: option.splits if_splits)

lemma open_wb_error: "open_wb_copyfileobj p f s = (Inl e, s1) \<Longrightarrow> e = OSError"
  by (auto simp: open_wb_copyfileobj_def split: option.splits if_splits)

lemma upload_file_main_http_error:
  assumes "fst (upload_file_main f u i s) = Inl (HTTPException c d)"
  shows "c = 400 \<and> d = UserIdRequired \<and> u = []"
proof (cases "u = []")
  case True
  with assms show ?thesis by (simp add: upload_file_main_def)
next
  case False
  obtain r1 s1 where m: "mkdir_exist_ok (joinpath UPLOAD_DIR u) s = (r1, s1)"
    by (cases "mkdir_exist_ok (joinpath UPLOAD_DIR u) s")
  obtain r2 s2 where
    w: "open_wb_copyfileobj (joinpath (joinpath UPLOAD_DIR u) (safe_filename i (filename f))) f s1
          = (r2, s2)"
    by (cases "open_wb_copyfileobj (joinpath (joinpath UPLOAD_DIR u) (safe_filename i (filename f))) f s1")
  from assms False m w mkdir_error [of _ s _ s1] open_wb_error [of _ f s1 _ s2]
  show ?thesis
    by (auto simp: upload_file_main_def Let_def broadcast_def split: sum.splits)
qed

subsection \<open>The size check\<close>






subsection \<open>Names without an extension\<close>

lemma rfind_dot_none: "CHR ''.'' \<notin> set n \<Longrightarrow> rfind_dot n = None"
  by (induction n) auto

lemma file_ext_no_dot:
  assumes "fname = None \<or> (\<exists>n. fname = Some n \<and> CHR ''.'' \<notin> set (name (Path n)))"
  shows "file_ext fname = []"
  using assms
  by (auto simp: file_ext_def suffix_path_def suffix_of_name_def rfind_dot_none lower_def)

lemma empty_not_allowed: "[] \<notin> ALLOWED_EXTENSIONS"
  by (simp add: ALLOWED_EXTENSIONS_def)

text \<open>
  Claim C10, as stated, fails on \<^verbatim>\<open>main_comentado.py\<close>: with an empty \<open>user_id\<close> an
  upload named \<^verbatim>\<open>README\<close> is rejected by the check of \<open>user_id\<close>, before the extension
  is looked at.
\<close>

theorem no_extension_empty_user_id:
  "file_ext (filename (small_upload ''README'')) = []
   \<and> upload_file_comentado (small_upload ''README'') [] demo_id demo
       = (Inl (HTTPException 400 UserIdRequired), demo)
   \<and> upload_file_comentado (small_upload ''README'') [] demo_id demo
       \<noteq> (Inl (HTTPException 400 TypeNotAllowed), demo)"
proof -
  have "file_ext (filename (small_upload ''README'')) = []" by code_simp
  then show ?thesis by (simp add: upload_file_comentado_cases)
qed

lemma example_exts:
  "file_ext (Some ''a.exe.txt'') = ''.txt''" "file_ext (Some ''a.txt.exe'') = ''.exe''"
  "''.txt'' \<in> ALLOWED_EXTENSIONS" "''.exe'' \<notin> ALLOWED_EXTENSIONS"
  by code_simp+

text \<open>
  Claim C10, amended. In \<^verbatim>\<open>main_comentado.py\<close>, an upload with a non-empty \<open>user_id\<close>
  whose file name is missing, empty or has no dot in its last component has the empty
  extension, which is not in the allow-list, and is rejected by the extension check
  with status 400 and the state unchanged. Only the last extension counts:
  \<^verbatim>\<open>a.txt.exe\<close> is rejected in the same way, and \<^verbatim>\<open>a.exe.txt\<close> is never rejected by the
  extension check.
\<close>

theorem no_extension_rejected:
  "(user_id \<noteq> [] \<and>
      (filename file = None \<or> (\<exists>n. filename file = Some n \<and> CHR ''.'' \<notin> set (name (Path n)))) \<longrightarrow>
        file_ext (filename file) = [] \<and> [] \<notin> ALLOWED_EXTENSIONS
        \<and> upload_file_comentado file user_id file_id s = (Inl (HTTPException 400 TypeNotAllowed), s))
   \<and> (user_id \<noteq> [] \<longrightarrow>
        upload_file_comentado (file\<lparr>filename := Some ''a.txt.exe''\<rparr>) user_id file_id s
          = (Inl (HTTPException 400 TypeNotAllowed), s))
   \<and> file_ext (Some ''a.exe.txt'') \<in> ALLOWED_EXTENSIONS
   \<and> fst (upload_file_comentado (file\<lparr>filename := Some ''a.exe.txt''\<rparr>) user_id file_id s)
        \<noteq> Inl (HTTPException 400 TypeNotAllowed)"
proof -
  have "fst (upload_file_main f user_id file_id s) \<noteq> Inl (HTTPException 400 TypeNotAllowed)" for f
    using upload_file_main_http_error [of f user_id file_id s 400 TypeNotAllowed] by auto
  then show ?thesis
    using file_ext_no_dot [of "filename file"] empty_not_allowed
    by (auto simp: upload_file_comentado_cases example_exts)
qed

theorem no_extension_rejected_witness:
  "CHR ''.'' \<notin> set (name (Path ''docs.d/README''))
   \<and> upload_file_comentado (small_upload ''docs.d/README'') ''alice'' demo_id demo
       = (Inl (HTTPException 400 TypeNotAllowed), demo)
   \<and> upload_file_comentado (small_upload ''a.txt.exe'') ''alice'' demo_id demo
       = (Inl (HTTPException 400 TypeNotAllowed), demo)
   \<and> fst (upload_file_comentado (small_upload ''a.exe.txt'') ''alice'' demo_id demo)
       \<noteq> Inl (HTTPException 400 TypeNotAllowed)"
proof -
  have d: "CHR ''.'' \<notin> set (name (Path ''docs.d/README''))" by code_simp
  have n: "''alice'' \<noteq> []" by simp
  have f: "filename (small_upload ''docs.d/README'') = Some ''docs.d/README''"
    by (simp add: small_upload_def)
  have u: "(small_upload x)\<lparr>filename := Some y\<rparr> = small_upload y" for x y
    by (simp add: small_upload_def)
  from no_extension_rejected [of "''alice''" "small_upload ''docs.d/README''" demo_id demo] d n f
  have "upload_file_comentado (small_upload ''docs.d/README'') ''alice'' demo_id demo
          = (Inl (HTTPException 400 TypeNotAllowed), demo)"
    by blast
  moreover from no_extension_rejected [of "''alice''" "small_upload ''x''" demo_id demo] n
  have "upload_file_comentado (small_upload ''a.txt.exe'') ''alice'' demo_id demo
          = (Inl (HTTPException 400 TypeNotAllowed), demo)
        \<and> fst (upload_file_comentado (small_upload ''a.exe.txt'') ''alice'' demo_id demo)
            \<noteq> Inl (HTTPException 400 TypeNotAllowed)"
    by (simp add: u)
  ultimately show ?thesis using d by blast
qed

section \<open>The two files compared\<close>

subsection \<open>Downloads of plain names\<close>

lemma UPLOAD_DIR_parts: "UPLOAD_DIR = \<lparr> absolute = False, parts = [''uploads''] \<rparr>"
  by code_simp

lemma normalize_plain: "''..'' \<notin> set ps \<Longrightarrow> normalize acc ps = acc @ ps"
  by (induction ps arbitrary: acc) auto

lemma walk_append:
  "walk d cur (xs @ ys) = (case walk d cur xs of None \<Rightarrow> None | Some q \<Rightarrow> walk d q ys)"
  by (induction xs arbitrary: cur) auto

lemma join_slash_prefix: "prefix (join_slash xs) (join_slash (xs @ ys))"
proof (induction xs rule: join_slash.induct)
  case 1
  show ?case by simp
next
  case (2 x)
  show ?case by (cases ys) simp_all
next
  case (3 x y zs)
  then show ?case by simp
qed

lemma plain_path:
  assumes "plain user_id" "plain fname"
  shows "joinpath (joinpath UPLOAD_DIR user_id) fname
           = \<lparr> absolute = False, parts = ''uploads'' # parts (Path user_id) @ parts (Path fname) \<rparr>"
  using assms by (simp add: plain_def joinpath_def UPLOAD_DIR_parts)

lemma get_file_agree:
  assumes c: "walk (disk s) [] (cwd s) = Some (cwd s)"
    and u: "plain user_id" and f: "plain fname"
  shows "get_file_comentado user_id fname s = get_file_main user_id fname s"
proof -
  let ?ps = "''uploads'' # parts (Path user_id) @ parts (Path fname)"
  let ?p = "\<lparr> absolute = False, parts = ?ps \<rparr>"
  have nd: "''..'' \<notin> set ?ps" using u f by (simp add: plain_def)
  have r: "resolve s ?p = \<lparr> absolute = True, parts = cwd s @ ?ps \<rparr>"
    using nd by (simp add: resolve_def normalize_plain)
  have r0: "resolve s UPLOAD_DIR = \<lparr> absolute = True, parts = cwd s @ [''uploads''] \<rparr>"
    by (simp add: resolve_def UPLOAD_DIR_parts)
  have pre: "prefix (str_path (resolve s UPLOAD_DIR)) (str_path (resolve s ?p))"
    using join_slash_prefix [of "cwd s @ [''uploads'']" "parts (Path user_id) @ parts (Path fname)"]
    by (simp add: r r0 str_path_def)
  have loc: "locate s (resolve s ?p) = locate s ?p"
    by (simp add: r locate_def walk_append c del: walk.simps)
  then have st: "stat s (resolve s ?p) = stat s ?p" by (simp add: stat_def)
  show ?thesis
    using pre st
    by (simp add: get_file_comentado_def get_file_main_def plain_path [OF u f] Let_def
        exists_def FileResponse_def)
qed

lemma seek_start_id: "pos file = 0 \<Longrightarrow> seek_start (seek_end file) = file"
  by (simp add: seek_start_def seek_end_def)

text \<open>
  Claim C7, as stated, fails: the upload of \<^verbatim>\<open>virus.exe\<close> is stored by \<^verbatim>\<open>main.py\<close> and
  rejected by \<^verbatim>\<open>main_comentado.py\<close>, and the download of \<^verbatim>\<open>../main.py\<close> is served by
  \<^verbatim>\<open>main.py\<close> and refused by \<^verbatim>\<open>main_comentado.py\<close>.
\<close>

theorem pipelines_differ_on_disallowed_type:
  "upload_file_main (small_upload ''virus.exe'') ''alice'' demo_id demo
     \<noteq> upload_file_comentado (small_upload ''virus.exe'') ''alice'' demo_id demo
   \<and> get_file_main ''..'' ''main.py'' demo \<noteq> get_file_comentado ''..'' ''main.py'' demo"
proof -
  have a: "fst (upload_file_comentado (small_upload ''virus.exe'') ''alice'' demo_id demo)
             = Inl (HTTPException 400 TypeNotAllowed)"
    by code_simp
  have b: "fst (upload_file_main (small_upload ''virus.exe'') ''alice'' demo_id demo)
             = Inr \<lparr> r_file_id = demo_id, r_filename = Some ''virus.exe'', r_user_id = ''alice'',
                     r_url = file_url ''alice'' (safe_filename demo_id (Some ''virus.exe'')) \<rparr>"
    by code_simp
  have c: "get_file_main ''..'' ''main.py'' demo = Inr ''code''" by code_simp
  have d: "get_file_comentado ''..'' ''main.py'' demo = Inl (HTTPException 403 AccessDenied)"
    by code_simp
  from a b have "upload_file_main (small_upload ''virus.exe'') ''alice'' demo_id demo
     \<noteq> upload_file_comentado (small_upload ''virus.exe'') ''alice'' demo_id demo"
    by (metis sum.distinct(1))
  with c d show ?thesis by simp
qed

text \<open>
  Claim C7, amended. The connection manager, the websocket endpoint and the two
  listings are the same code in both files. The two upload pipelines return the same
  result and the same state when \<open>user_id\<close> is empty, and when the extension is in the
  allow-list, the payload has at most \<open>MAX_FILE_SIZE\<close> bytes and the file object is at
  read position 0, as the framework hands it over. In a file system without symbolic
  links, the two downloads return the same result when the working directory is
  reached from the root under its own name and both \<open>user_id\<close> and the file name are
  relative names without a component \<^verbatim>\<open>..\<close>.
\<close>

theorem files_agree_on_valid_requests:
  "((user_id = [] \<or>
       (file_ext (filename file) \<in> ALLOWED_EXTENSIONS \<and> length (content file) \<le> MAX_FILE_SIZE
        \<and> pos file = 0)) \<longrightarrow>
      upload_file_comentado file user_id file_id s = upload_file_main file user_id file_id s)
   \<and> ((walk (disk s) [] (cwd s) = Some (cwd s) \<and> plain user_id \<and> plain fname) \<longrightarrow>
        get_file_comentado user_id fname s = get_file_main user_id fname s)"
  using get_file_agree [of s user_id fname]
  by (auto simp: upload_file_comentado_cases seek_start_id upload_file_main_def)

theorem files_agree_on_valid_requests_witness:
  "file_ext (filename (small_upload ''Report.PDF'')) \<in> ALLOWED_EXTENSIONS
   \<and> upload_file_comentado (small_upload ''Report.PDF'') ''alice'' demo_id demo
       = upload_file_main (small_upload ''Report.PDF'') ''alice'' demo_id demo
   \<and> fst (upload_file_main (small_upload ''Report.PDF'') ''alice'' demo_id demo)
       = Inr \<lparr> r_file_id = demo_id, r_filename = Some ''Report.PDF'', r_user_id = ''alice'',
               r_url = file_url ''alice'' (safe_filename demo_id (Some ''Report.PDF'')) \<rparr>
   \<and> walk (disk demo) [] (cwd demo) = Some (cwd demo)
   \<and> plain ''carol'' \<and> plain ''tmp''
   \<and> get_file_comentado ''carol'' ''tmp'' demo = get_file_main ''carol'' ''tmp'' demo
   \<and> get_file_main ''carol'' ''tmp'' demo = Inl RuntimeError"
proof -
  have e: "file_ext (filename (small_upload ''Report.PDF'')) \<in> ALLOWED_EXTENSIONS" by code_simp
  have l: "length (content (small_upload ''Report.PDF'')) \<le> MAX_FILE_SIZE"
    by (simp add: small_upload_def MAX_FILE_SIZE_def)
  have p: "pos (small_upload ''Report.PDF'') = 0" by (simp add: small_upload_def)
  have w: "walk (disk demo) [] (cwd demo) = Some (cwd demo)" by code_simp
  have pl: "plain ''carol''" "plain ''tmp''" by code_simp+
  have r: "fst (upload_file_main (small_upload ''Report.PDF'') ''alice'' demo_id demo)
       = Inr \<lparr> r_file_id = demo_id, r_filename = Some ''Report.PDF'', r_user_id = ''alice'',
               r_url = file_url ''alice'' (safe_filename demo_id (Some ''Report.PDF'')) \<rparr>"
    by code_simp
  have g: "get_file_main ''carol'' ''tmp'' demo = Inl RuntimeError" by code_simp
  from files_agree_on_valid_requests
         [of "''alice''" "small_upload ''Report.PDF''" demo_id demo]
    e l p
  have "upload_file_comentado (small_upload ''Report.PDF'') ''alice'' demo_id demo
       = upload_file_main (small_upload ''Report.PDF'') ''alice'' demo_id demo"
    by blast
  moreover from files_agree_on_valid_requests
         [of "''carol''" "small_upload ''x''" demo_id demo "''tmp''"] w pl
  have "get_file_comentado ''carol'' ''tmp'' demo = get_file_main ''carol'' ''tmp'' demo"
    by blast
  ultimately show ?thesis using e w pl r g by blast
qed

section \<open>The round trip from an upload to the listings\<close>

subsection \<open>The path of the stored file\<close>

lemma uuid_chars:
  assumes "is_uuid_str u" "c \<in> set u"
  shows "hexdigit c \<or> c = CHR ''-''"
proof (rule ccontr)
  assume n: "\<not> (hexdigit c \<or> c = CHR ''-'')"
  then obtain w where w: "w \<in> set (split_sep (CHR ''-'') u)" "c \<in> set w"
    using split_sep_chars [of c u "CHR ''-''"] assms(2) by auto
  from assms(1) obtain a b c' d e where
    sp: "split_sep (CHR ''-'') u = [a, b, c', d, e]"
    and hx: "list_all hexdigit (a @ b @ c' @ d @ e)"
    by (auto simp: is_uuid_str_def split: list.splits)
  from w sp have "c \<in> set (a @ b @ c' @ d @ e)" by auto
  with hx have "hexdigit c" by (auto simp: list_all_iff)
  with n show False by simp
qed

lemma uuid_no_slash: "is_uuid_str u \<Longrightarrow> CHR ''/'' \<notin> set u"
  using uuid_chars [of u "CHR ''/''"] by (auto simp: hexdigit_def)

lemma split_sep_no_sep: "d \<notin> set s \<Longrightarrow> split_sep d s = [s]"
  by (induction s) auto

lemma Path_single:
  assumes "CHR ''/'' \<notin> set n" "n \<noteq> []" "n \<noteq> ''.''"
  shows "Path n = \<lparr> absolute = False, parts = [n] \<rparr>"
proof -
  have "hd n \<in> set n" using assms(2) by simp
  with assms(1) have "hd n \<noteq> CHR ''/''" by auto
  then show ?thesis using assms by (simp add: Path_def split_sep_no_sep)
qed

lemma joinpath_safe_filename:
  assumes "is_uuid_str file_id" "CHR ''/'' \<notin> set orig"
  shows "joinpath p (safe_filename file_id (Some orig))
           = \<lparr> absolute = absolute p, parts = parts p @ [file_id @ ''_'' @ orig] \<rparr>"
proof -
  let ?n = "file_id @ ''_'' @ orig"
  have a: "CHR ''/'' \<notin> set ?n" using assms uuid_no_slash by auto
  have b: "?n \<noteq> []" by simp
  have c: "?n \<noteq> ''.''"
  proof
    assume "?n = ''.''"
    then have "set ?n = set ''.''" by simp
    then show False by auto
  qed
  show ?thesis
    using Path_single [OF a b c] by (simp add: joinpath_def safe_filename_def)
qed

lemma children_member: "(q @ [n], e) \<in> set d \<Longrightarrow> n \<in> set (children d q)"
  by (induction d) (auto simp: children_def)

lemma comprehension_member:
  "x \<in> set xs \<Longrightarrow> P (g x) \<Longrightarrow> f (g x) \<in> set [f y. y \<leftarrow> map g xs, P y]"
  by (induction xs) auto

lemma dir_at_update_file:
  assumes "\<not> dir_at d q"
  shows "dir_at (AList.update q (File c) d) p = dir_at d p"
  using assms by (auto simp: dir_at_def update_conv')

lemma walk_cong_dirs:
  assumes "\<And>p. dir_at d' p = dir_at d p"
  shows "walk d' cur ps = walk d cur ps"
  by (induction ps arbitrary: cur) (simp_all add: assms)

lemma upload_file_main_success:
  assumes "upload_file_main f u i s = (Inr r, s')"
  shows "\<exists>s1 s2. open_wb_copyfileobj (joinpath (joinpath UPLOAD_DIR u) (safe_filename i (filename f)))
                     f s1 = (Inr (), s2)
                 \<and> disk s' = disk s2 \<and> cwd s' = cwd s2"
proof -
  have ne: "u \<noteq> []" using assms by (auto simp: upload_file_main_def)
  obtain r1 s1 where m: "mkdir_exist_ok (joinpath UPLOAD_DIR u) s = (r1, s1)"
    by (cases "mkdir_exist_ok (joinpath UPLOAD_DIR u) s")
  obtain r2 s2 where
    w: "open_wb_copyfileobj (joinpath (joinpath UPLOAD_DIR u) (safe_filename i (filename f))) f s1
          = (r2, s2)"
    by (cases "open_wb_copyfileobj (joinpath (joinpath UPLOAD_DIR u) (safe_filename i (filename f))) f s1")
  from assms ne m w have "r2 = Inr () \<and> s' = broadcast_loop (active_connections s2) NEW_FILE_EVENT s2"
    by (auto simp: upload_file_main_def Let_def broadcast_def split: sum.splits)
  with w show ?thesis using broadcast_loop_disk by auto
qed

lemma open_wb_success:
  assumes "open_wb_copyfileobj p f s1 = (Inr (), s2)"
  shows "\<exists>q. locate s1 p = Some q \<and> \<not> dir_at (disk s1) q
             \<and> disk s2 = AList.update q (File (drop (pos f) (content f))) (disk s1)
             \<and> cwd s2 = cwd s1"
  using assms by (auto simp: open_wb_copyfileobj_def split: option.splits if_splits)

lemma upload_places_file:
  assumes u: "is_uuid_str file_id" and o: "CHR ''/'' \<notin> set orig"
    and f: "filename file = Some orig"
    and up: "upload_file_main file user_id file_id s = (Inr r, s')"
  shows "\<exists>q. locate s' (joinpath UPLOAD_DIR user_id) = Some q \<and> dir_at (disk s') q
             \<and> file_id @ ''_'' @ orig \<in> set (children (disk s') q)
             \<and> is_file s' ((joinpath UPLOAD_DIR user_id)
                    \<lparr>parts := parts (joinpath UPLOAD_DIR user_id) @ [file_id @ ''_'' @ orig]\<rparr>)"
proof -
  let ?dir = "joinpath UPLOAD_DIR user_id"
  let ?n = "file_id @ ''_'' @ orig"
  let ?fp = "\<lparr> absolute = absolute ?dir, parts = parts ?dir @ [?n] \<rparr>"
  let ?start = "if absolute ?dir then [] else cwd s'"
  have jp: "joinpath ?dir (safe_filename file_id (filename file)) = ?fp"
    using joinpath_safe_filename [OF u o] f by simp
  from upload_file_main_success [OF up] obtain s1 s2 where
    w: "open_wb_copyfileobj ?fp file s1 = (Inr (), s2)"
    and d: "disk s' = disk s2" and c: "cwd s' = cwd s2"
    using jp by auto
  from open_wb_success [OF w] obtain qf where
    l: "locate s1 ?fp = Some qf" and nd: "\<not> dir_at (disk s1) qf"
    and d2: "disk s2 = AList.update qf (File (drop (pos file) (content file))) (disk s1)"
    and c2: "cwd s2 = cwd s1"
    by auto
  have nn: "?n \<noteq> ''..''"
  proof
    assume "?n = ''..''"
    then have "set ?n = set ''..''" by simp
    then show False by auto
  qed
  from l obtain q where
    wq: "walk (disk s1) ?start (parts ?dir) = Some q" and dq: "dir_at (disk s1) q"
    and qf: "qf = q @ [?n]"
    using nn c c2
    by (auto simp: locate_def walk_append split: option.splits if_splits)
  have same: "dir_at (disk s') p = dir_at (disk s1) p" for p
    using dir_at_update_file [OF nd] d d2 by simp
  have wq': "walk (disk s') ?start (parts ?dir) = Some q"
    using walk_cong_dirs [of "disk s'" "disk s1"] same wq by simp
  have dq': "dir_at (disk s') q" using same dq by simp
  have loc: "locate s' ?dir = Some q" using wq' by (simp add: locate_def)
  have mf: "map_of (disk s') qf = Some (File (drop (pos file) (content file)))"
    using d d2 by (simp add: update_conv')
  then have "(qf, File (drop (pos file) (content file))) \<in> set (disk s')"
    by (rule map_of_SomeD)
  then have ch: "?n \<in> set (children (disk s') q)"
    using qf children_member [of q ?n _ "disk s'"] by simp
  have fpe: "?dir\<lparr>parts := parts ?dir @ [?n]\<rparr> = ?fp" by simp
  have locf: "locate s' ?fp = Some qf"
    using wq' dq' nn qf by (simp add: locate_def walk_append)
  have isf: "is_file s' ?fp"
    using locf mf qf by (simp add: is_file_def stat_def)
  have isf': "is_file s' (?dir\<lparr>parts := parts ?dir @ [?n]\<rparr>)"
    using isf by (simp only: fpe)
  from loc dq' ch isf' show ?thesis by blast
qed

lemma entry_of_stored_file:
  assumes "is_uuid_str file_id"
  shows "file_entry owner (dir\<lparr>parts := parts dir @ [file_id @ ''_'' @ orig]\<rparr>)
           = \<lparr> i_user_id = owner, i_filename = orig,
               i_stored_filename = file_id @ ''_'' @ orig,
               i_url = file_url owner (file_id @ ''_'' @ orig) \<rparr>"
  using original_name_after_prefix [OF uuid_no_underscore [OF assms], of orig]
  by (simp add: file_entry_def name_def)

lemma entries_of_dir:
  assumes u: "is_uuid_str file_id"
    and loc: "locate s' dir = Some q" and dq: "dir_at (disk s') q"
    and ch: "file_id @ ''_'' @ orig \<in> set (children (disk s') q)"
    and isf: "is_file s' (dir\<lparr>parts := parts dir @ [file_id @ ''_'' @ orig]\<rparr>)"
  shows "\<exists>fps. iterdir s' dir = Inr fps
           \<and> \<lparr> i_user_id = owner, i_filename = orig,
                 i_stored_filename = file_id @ ''_'' @ orig,
                 i_url = file_url owner (file_id @ ''_'' @ orig) \<rparr>
               \<in> set [file_entry owner file_path. file_path \<leftarrow> fps, is_file s' file_path]"
proof -
  let ?n = "file_id @ ''_'' @ orig"
  have it: "iterdir s' dir
              = Inr (map (\<lambda>n. dir\<lparr>parts := parts dir @ [n]\<rparr>) (children (disk s') q))"
    using loc dq by (simp add: iterdir_def)
  have "file_entry owner (dir\<lparr>parts := parts dir @ [?n]\<rparr>)
          \<in> set [file_entry owner file_path.
                   file_path \<leftarrow> map (\<lambda>n. dir\<lparr>parts := parts dir @ [n]\<rparr>) (children (disk s') q),
                   is_file s' file_path]"
    using ch isf
    by (rule comprehension_member
          [where x = ?n and xs = "children (disk s') q" and P = "is_file s'"
             and g = "\<lambda>n. dir\<lparr>parts := parts dir @ [n]\<rparr>" and f = "file_entry owner"])
  then show ?thesis
    by (simp only: entry_of_stored_file [OF u] it) blast
qed

subsection \<open>The stored file in the listings\<close>

lemma listed_after_upload_main:
  assumes u: "is_uuid_str file_id" and o: "CHR ''/'' \<notin> set orig"
    and f: "filename file = Some orig"
    and up: "upload_file_main file user_id file_id s = (Inr r, s')"
  shows "\<exists>files. list_user_files user_id s' = Inr files
           \<and> \<lparr> i_user_id = user_id, i_filename = orig,
                 i_stored_filename = file_id @ ''_'' @ orig,
                 i_url = file_url user_id (file_id @ ''_'' @ orig) \<rparr> \<in> set files"
proof -
  let ?dir = "joinpath UPLOAD_DIR user_id"
  from upload_places_file [OF u o f up] obtain q where
    loc: "locate s' ?dir = Some q" and dq: "dir_at (disk s') q"
    and ch: "file_id @ ''_'' @ orig \<in> set (children (disk s') q)"
    and isf: "is_file s' (?dir\<lparr>parts := parts ?dir @ [file_id @ ''_'' @ orig]\<rparr>)"
    by blast
  have isd: "is_dir s' ?dir" "exists s' ?dir"
    using loc dq by (auto simp: is_dir_def exists_def stat_def dir_at_def)
  from entries_of_dir [OF u loc dq ch isf, of user_id] isd show ?thesis
    by (auto simp: list_user_files_def Let_def)
qed

lemma list_dirs_member:
  assumes "d \<in> set ds" "is_dir s d" "iterdir s d = Inr fps"
    and "e \<in> set [file_entry (name d) file_path. file_path \<leftarrow> fps, is_file s file_path]"
  shows "\<exists>files. list_dirs s ds = Inr files \<and> e \<in> set files"
  using assms(1)
proof (induction ds)
  case Nil
  then show ?case by simp
next
  case (Cons x ds)
  have ok: "is_dir s x \<Longrightarrow> \<exists>xs. iterdir s x = Inr xs"
    by (auto simp: is_dir_def stat_def iterdir_def dir_at_def split: option.splits if_splits)
  have tot: "\<exists>files. list_dirs s ys = Inr files" for ys
  proof (induction ys)
    case Nil
    show ?case by simp
  next
    case (Cons y ys)
    then obtain files where "list_dirs s ys = Inr files" by blast
    then show ?case
      by (cases "is_dir s y") (auto simp: iterdir_def is_dir_def stat_def dir_at_def
            split: option.splits if_splits)
  qed
  obtain rest where rest: "list_dirs s ds = Inr rest" using tot by blast
  show ?case
  proof (cases "x = d")
    case True
    with assms rest show ?thesis by auto
  next
    case False
    with Cons have "d \<in> set ds" by simp
    with Cons.IH rest have "e \<in> set rest" by auto
    with rest ok show ?thesis by (cases "is_dir s x") auto
  qed
qed

lemma listed_in_all_after_upload_main:
  assumes u: "is_uuid_str file_id" and o: "CHR ''/'' \<notin> set orig"
    and f: "filename file = Some orig"
    and up: "upload_file_main file user_id file_id s = (Inr r, s')"
    and p: "CHR ''/'' \<notin> set user_id" "user_id \<noteq> ''.''" "user_id \<noteq> ''..''"
  shows "\<exists>files. list_all_files s' = Inr files
           \<and> \<lparr> i_user_id = user_id, i_filename = orig,
                 i_stored_filename = file_id @ ''_'' @ orig,
                 i_url = file_url user_id (file_id @ ''_'' @ orig) \<rparr> \<in> set files"
proof -
  let ?dir = "joinpath UPLOAD_DIR user_id"
  have ne: "user_id \<noteq> []" using up by (auto simp: upload_file_main_def)
  have dir: "?dir = \<lparr> absolute = False, parts = [''uploads'', user_id] \<rparr>"
    using Path_single [OF p(1) ne p(2)] by (simp add: joinpath_def UPLOAD_DIR_parts)
  from upload_places_file [OF u o f up] obtain q where
    loc: "locate s' ?dir = Some q" and dq: "dir_at (disk s') q"
    and ch: "file_id @ ''_'' @ orig \<in> set (children (disk s') q)"
    and isf: "is_file s' (?dir\<lparr>parts := parts ?dir @ [file_id @ ''_'' @ orig]\<rparr>)"
    by blast
  from loc have q: "q = cwd s' @ [''uploads'', user_id]"
    and du: "dir_at (disk s') (cwd s' @ [''uploads''])" and dc: "dir_at (disk s') (cwd s')"
    using p(3) by (auto simp: locate_def dir split: if_splits)
  have lu: "locate s' UPLOAD_DIR = Some (cwd s' @ [''uploads''])"
    using dc by (simp add: locate_def UPLOAD_DIR_parts)
  have ex: "exists s' UPLOAD_DIR"
    using lu du by (simp add: exists_def stat_def dir_at_def)
  have "map_of (disk s') q = Some Dir" using dq q by (simp add: dir_at_def)
  then have "(q, Dir) \<in> set (disk s')" by (rule map_of_SomeD)
  then have "((cwd s' @ [''uploads'']) @ [user_id], Dir) \<in> set (disk s')"
    using q by simp
  then have cu: "user_id \<in> set (children (disk s') (cwd s' @ [''uploads'']))"
    by (rule children_member)
  have itu: "iterdir s' UPLOAD_DIR
               = Inr (map (\<lambda>n. UPLOAD_DIR\<lparr>parts := parts UPLOAD_DIR @ [n]\<rparr>)
                        (children (disk s') (cwd s' @ [''uploads''])))"
    using lu du by (simp add: iterdir_def)
  have "\<lparr> absolute = False, parts = [''uploads'', user_id] \<rparr>
          \<in> set (map (\<lambda>n. UPLOAD_DIR\<lparr>parts := parts UPLOAD_DIR @ [n]\<rparr>)
                        (children (disk s') (cwd s' @ [''uploads''])))"
    using cu by (auto simp: UPLOAD_DIR_parts)
  then have mem: "?dir \<in> set (map (\<lambda>n. UPLOAD_DIR\<lparr>parts := parts UPLOAD_DIR @ [n]\<rparr>)
                        (children (disk s') (cwd s' @ [''uploads''])))"
    by (simp only: dir)
  have isd: "is_dir s' ?dir"
    using loc dq by (auto simp: is_dir_def stat_def dir_at_def)
  have nm: "name ?dir = user_id" by (simp add: dir name_def)
  from entries_of_dir [OF u loc dq ch isf, of "name ?dir"] obtain fps where
    it: "iterdir s' ?dir = Inr fps"
    and e: "\<lparr> i_user_id = user_id, i_filename = orig,
                 i_stored_filename = file_id @ ''_'' @ orig,
                 i_url = file_url user_id (file_id @ ''_'' @ orig) \<rparr>
               \<in> set [file_entry (name ?dir) file_path. file_path \<leftarrow> fps, is_file s' file_path]"
    unfolding nm by blast
  from list_dirs_member [OF mem isd it e] ex itu show ?thesis
    by (simp add: list_all_files_def)
qed


lemma upload_file_comentado_success:
  "upload_file_comentado f u i s = (Inr r, s') \<Longrightarrow>
     upload_file_main (seek_start (seek_end f)) u i s = (Inr r, s')"
  by (auto simp: upload_file_comentado_cases split: if_splits)

lemma small_upload_same:
  assumes "file_ext (Some n) \<in> ALLOWED_EXTENSIONS"
  shows "upload_file_comentado (small_upload n) u i s = upload_file_main (small_upload n) u i s"
proof -
  have "seek_start (seek_end (small_upload n)) = small_upload n"
    by (simp add: seek_start_def seek_end_def small_upload_def)
  moreover have "\<not> MAX_FILE_SIZE < length (content (small_upload n))"
    by (simp add: small_upload_def MAX_FILE_SIZE_def)
  moreover have "file_ext (filename (small_upload n)) \<in> ALLOWED_EXTENSIONS"
    using assms by (simp add: small_upload_def)
  ultimately show ?thesis
    by (simp add: upload_file_comentado_cases upload_file_main_def)
qed

text \<open>
  Claim C8, as stated, fails. The file name \<^verbatim>\<open>x.txt/\<close> passes the extension check of
  \<^verbatim>\<open>main_comentado.py\<close> (pathlib drops the trailing slash before it takes the suffix),
  so both pipelines take the upload. The name they compose is the identifier, an
  underscore and \<^verbatim>\<open>x.txt/\<close>, but \<^verbatim>\<open>user_dir / safe_filename\<close> drops the slash again: the
  file is stored as the identifier, an underscore and \<^verbatim>\<open>x.txt\<close>, and the listing shows
  the name \<^verbatim>\<open>x.txt\<close>, not the original name \<^verbatim>\<open>x.txt/\<close> that the upload response
  returned.
\<close>

theorem trailing_slash_name_not_recovered:
  "is_uuid_str demo_id
   \<and> file_ext (Some ''x.txt/'') \<in> ALLOWED_EXTENSIONS
   \<and> upload_file_comentado (small_upload ''x.txt/'') ''alice'' demo_id demo
       = upload_file_main (small_upload ''x.txt/'') ''alice'' demo_id demo
   \<and> fst (upload_file_main (small_upload ''x.txt/'') ''alice'' demo_id demo)
       = Inr \<lparr> r_file_id = demo_id, r_filename = Some ''x.txt/'', r_user_id = ''alice'',
               r_url = ''http://127.0.0.1:8000/files/alice/0f8fad5b-d9cb-469f-a165-70867728950e_x.txt/'' \<rparr>
   \<and> safe_filename demo_id (Some ''x.txt/'') = ''0f8fad5b-d9cb-469f-a165-70867728950e_x.txt/''
   \<and> list_user_files ''alice''
         (snd (upload_file_main (small_upload ''x.txt/'') ''alice'' demo_id demo))
       = Inr [\<lparr> i_user_id = ''alice'', i_filename = ''x.txt'',
                 i_stored_filename = ''0f8fad5b-d9cb-469f-a165-70867728950e_x.txt'',
                 i_url = ''http://127.0.0.1:8000/files/alice/0f8fad5b-d9cb-469f-a165-70867728950e_x.txt'' \<rparr>]"
proof -
  have e: "file_ext (Some ''x.txt/'') \<in> ALLOWED_EXTENSIONS" by code_simp
  have u: "is_uuid_str demo_id" by code_simp
  have r: "fst (upload_file_main (small_upload ''x.txt/'') ''alice'' demo_id demo)
       = Inr \<lparr> r_file_id = demo_id, r_filename = Some ''x.txt/'', r_user_id = ''alice'',
               r_url = ''http://127.0.0.1:8000/files/alice/0f8fad5b-d9cb-469f-a165-70867728950e_x.txt/'' \<rparr>"
    by code_simp
  have n: "safe_filename demo_id (Some ''x.txt/'') = ''0f8fad5b-d9cb-469f-a165-70867728950e_x.txt/''"
    by code_simp
  have l: "list_user_files ''alice''
         (snd (upload_file_main (small_upload ''x.txt/'') ''alice'' demo_id demo))
       = Inr [\<lparr> i_user_id = ''alice'', i_filename = ''x.txt'',
                 i_stored_filename = ''0f8fad5b-d9cb-469f-a165-70867728950e_x.txt'',
                 i_url = ''http://127.0.0.1:8000/files/alice/0f8fad5b-d9cb-469f-a165-70867728950e_x.txt'' \<rparr>]"
    by code_simp
  from e u r n l small_upload_same [OF e] show ?thesis by blast
qed

text \<open>
  Claim C8, amended. For every identifier of the form of a UUID string and every
  original file name without a slash: the name composed by the pipeline is the
  identifier, an underscore and the original name, and stripping it up to its first
  underscore gives the original name back; after an upload that either pipeline has
  completed, \<open>list_user_files\<close> of the owner returns an entry whose stored name is that
  name and whose file name is the original name, and so does \<open>list_all_files\<close> when
  \<open>user_id\<close> is a single directory name (no slash, not \<^verbatim>\<open>.\<close>, not \<^verbatim>\<open>..\<close>).
\<close>

theorem stored_name_round_trip:
  assumes "is_uuid_str file_id" and "CHR ''/'' \<notin> set orig" and "filename file = Some orig"
  shows "safe_filename file_id (filename file) = file_id @ ''_'' @ orig
         \<and> original_name (file_id @ ''_'' @ orig) = orig
         \<and> (upload_file_main file user_id file_id s = (Inr r, s')
              \<or> upload_file_comentado file user_id file_id s = (Inr r, s') \<longrightarrow>
              (\<exists>files. list_user_files user_id s' = Inr files
                 \<and> \<lparr> i_user_id = user_id, i_filename = orig,
                       i_stored_filename = file_id @ ''_'' @ orig,
                       i_url = file_url user_id (file_id @ ''_'' @ orig) \<rparr> \<in> set files)
              \<and> (CHR ''/'' \<notin> set user_id \<and> user_id \<noteq> ''.'' \<and> user_id \<noteq> ''..'' \<longrightarrow>
                   (\<exists>files. list_all_files s' = Inr files
                      \<and> \<lparr> i_user_id = user_id, i_filename = orig,
                            i_stored_filename = file_id @ ''_'' @ orig,
                            i_url = file_url user_id (file_id @ ''_'' @ orig) \<rparr> \<in> set files)))"
proof -
  have a: "safe_filename file_id (filename file) = file_id @ ''_'' @ orig"
    using assms(3) by (simp add: safe_filename_def)
  have b: "original_name (file_id @ ''_'' @ orig) = orig"
    using original_name_after_prefix [OF uuid_no_underscore [OF assms(1)]] .
  have c: "(\<exists>files. list_user_files user_id s' = Inr files
                 \<and> \<lparr> i_user_id = user_id, i_filename = orig,
                       i_stored_filename = file_id @ ''_'' @ orig,
                       i_url = file_url user_id (file_id @ ''_'' @ orig) \<rparr> \<in> set files)
              \<and> (CHR ''/'' \<notin> set user_id \<and> user_id \<noteq> ''.'' \<and> user_id \<noteq> ''..'' \<longrightarrow>
                   (\<exists>files. list_all_files s' = Inr files
                      \<and> \<lparr> i_user_id = user_id, i_filename = orig,
                            i_stored_filename = file_id @ ''_'' @ orig,
                            i_url = file_url user_id (file_id @ ''_'' @ orig) \<rparr> \<in> set files))"
    if up: "upload_file_main file user_id file_id s = (Inr r, s')
            \<or> upload_file_comentado file user_id file_id s = (Inr r, s')"
  proof -
    from up obtain g where
      g: "upload_file_main g user_id file_id s = (Inr r, s')" and fg: "filename g = Some orig"
    proof
      assume "upload_file_main file user_id file_id s = (Inr r, s')"
      with assms(3) show ?thesis using that by blast
    next
      assume "upload_file_comentado file user_id file_id s = (Inr r, s')"
      then have "upload_file_main (seek_start (seek_end file)) user_id file_id s = (Inr r, s')"
        by (rule upload_file_comentado_success)
      moreover have "filename (seek_start (seek_end file)) = Some orig"
        using assms(3) by (simp add: seek_start_def seek_end_def)
      ultimately show ?thesis using that by blast
    qed
    from listed_after_upload_main [OF assms(1,2) fg g]
         listed_in_all_after_upload_main [OF assms(1,2) fg g]
    show ?thesis by blast
  qed
  from a b c show ?thesis by blast
qed

theorem stored_name_round_trip_witness:
  "is_uuid_str demo_id \<and> CHR ''/'' \<notin> set ''my_report.pdf''
   \<and> fst (upload_file_comentado (small_upload ''my_report.pdf'') ''alice'' demo_id demo)
       = Inr \<lparr> r_file_id = demo_id, r_filename = Some ''my_report.pdf'', r_user_id = ''alice'',
               r_url = ''http://127.0.0.1:8000/files/alice/0f8fad5b-d9cb-469f-a165-70867728950e_my_report.pdf'' \<rparr>
   \<and> original_name (demo_id @ ''_'' @ ''my_report.pdf'') = ''my_report.pdf''
   \<and> (\<exists>files. list_user_files ''alice''
                  (snd (upload_file_comentado (small_upload ''my_report.pdf'') ''alice'' demo_id demo))
                 = Inr files
         \<and> \<lparr> i_user_id = ''alice'', i_filename = ''my_report.pdf'',
               i_stored_filename = demo_id @ ''_'' @ ''my_report.pdf'',
               i_url = file_url ''alice'' (demo_id @ ''_'' @ ''my_report.pdf'') \<rparr> \<in> set files)
   \<and> (\<exists>files. list_all_files
                  (snd (upload_file_comentado (small_upload ''my_report.pdf'') ''alice'' demo_id demo))
                 = Inr files
         \<and> \<lparr> i_user_id = ''alice'', i_filename = ''my_report.pdf'',
               i_stored_filename = demo_id @ ''_'' @ ''my_report.pdf'',
               i_url = file_url ''alice'' (demo_id @ ''_'' @ ''my_report.pdf'') \<rparr> \<in> set files)"
proof -
  let ?f = "small_upload ''my_report.pdf''"
  let ?r = "\<lparr> r_file_id = demo_id, r_filename = Some ''my_report.pdf'', r_user_id = ''alice'',
               r_url = ''http://127.0.0.1:8000/files/alice/0f8fad5b-d9cb-469f-a165-70867728950e_my_report.pdf'' \<rparr>"
  have u: "is_uuid_str demo_id" by code_simp
  have o: "CHR ''/'' \<notin> set ''my_report.pdf''" by simp
  have f: "filename ?f = Some ''my_report.pdf''" by (simp add: small_upload_def)
  have e: "file_ext (Some ''my_report.pdf'') \<in> ALLOWED_EXTENSIONS" by code_simp
  have m: "fst (upload_file_main ?f ''alice'' demo_id demo) = Inr ?r" by code_simp
  have c: "fst (upload_file_comentado ?f ''alice'' demo_id demo) = Inr ?r"
    using m small_upload_same [OF e] by simp
  then have up: "upload_file_main ?f ''alice'' demo_id demo
                   = (Inr ?r, snd (upload_file_comentado ?f ''alice'' demo_id demo))
                 \<or> upload_file_comentado ?f ''alice'' demo_id demo
                   = (Inr ?r, snd (upload_file_comentado ?f ''alice'' demo_id demo))"
    by (simp add: prod_eq_iff)
  have p: "CHR ''/'' \<notin> set ''alice'' \<and> ''alice'' \<noteq> ''.'' \<and> ''alice'' \<noteq> ''..''" by simp
  from stored_name_round_trip
         [OF u o f, of "''alice''" demo ?r "snd (upload_file_comentado ?f ''alice'' demo_id demo)"]
       up u o c p
  show ?thesis by blast
qed

section \<open>The listing property on the example state\<close>

text \<open>
  The upload of \<^verbatim>\<open>Report.PDF\<close> for \<^verbatim>\<open>alice\<close> leads from \<open>demo\<close> to \<open>demo_after\<close> in both
  files. There both listings hold one entry, with the original name and the stored
  name, and the download under the stored name returns the uploaded bytes.
\<close>

lemma upload_main_reaches_demo_after:
  "snd (upload_file_main (small_upload ''Report.PDF'') ''alice'' demo_id demo) = demo_after"
  by code_simp

lemma upload_comentado_reaches_demo_after:
  "snd (upload_file_comentado (small_upload ''Report.PDF'') ''alice'' demo_id demo) = demo_after"
proof -
  have e: "file_ext (filename (small_upload ''Report.PDF'')) \<in> ALLOWED_EXTENSIONS" by code_simp
  have l: "\<not> MAX_FILE_SIZE < length (content (small_upload ''Report.PDF''))"
    by (simp add: small_upload_def MAX_FILE_SIZE_def)
  have p: "seek_start (seek_end (small_upload ''Report.PDF'')) = small_upload ''Report.PDF''"
    by (simp add: seek_start_id small_upload_def)
  show ?thesis
    using e l by (simp add: upload_file_comentado_cases p upload_main_reaches_demo_after)
qed

lemma listing_after_upload:
  "list_user_files ''alice'' demo_after
   = Inr [\<lparr> i_user_id = ''alice'', i_filename = ''Report.PDF'',
             i_stored_filename = ''0f8fad5b-d9cb-469f-a165-70867728950e_Report.PDF'',
             i_url = ''http://127.0.0.1:8000/files/alice/0f8fad5b-d9cb-469f-a165-70867728950e_Report.PDF'' \<rparr>]"
  "list_all_files demo_after
   = Inr [\<lparr> i_user_id = ''alice'', i_filename = ''Report.PDF'',
             i_stored_filename = ''0f8fad5b-d9cb-469f-a165-70867728950e_Report.PDF'',
             i_url = ''http://127.0.0.1:8000/files/alice/0f8fad5b-d9cb-469f-a165-70867728950e_Report.PDF'' \<rparr>]"
  "get_file_comentado ''alice'' ''0f8fad5b-d9cb-469f-a165-70867728950e_Report.PDF'' demo_after
   = Inr ''MZ''"
  "get_file_main ''alice'' ''0f8fad5b-d9cb-469f-a165-70867728950e_Report.PDF'' demo_after
   = Inr ''MZ''"
  by code_simp+

end
